theory Spec2Isabelle
  imports
    Main
    "HOL-Library.Char_ord"
    "HOL-Library.List_Lexorder"
    "HOL-Library.Product_Lexorder"
    "HOL-Library.Multiset"
    "HOL-Library.Word"
begin

section \<open>Data model\<close>

text \<open>
  The offline-first synchronisation engine of the task service: \<open>SyncService\<close>
  (services/syncService.ts), the \<open>TaskService\<close> operations it calls
  (services/taskService.ts), the tables of db/database.ts and the interfaces of
  types/index.ts.

  A \<open>Date\<close> is its \<open>getTime()\<close> value, epoch milliseconds. Field names carry a
  prefix per interface (\<open>t_\<close> for Task, \<open>q_\<close> for SyncQueueItem, \<open>e_\<close> for
  SyncError, \<open>p_\<close> for an entry of processed_items; \<open>tr_\<close>, \<open>r_\<close>, \<open>d_\<close> for the
  rows of the tables tasks, sync_queue and sync_dead_letter_queue), since the
  interfaces share field names.
\<close>

type_synonym timestamp = int

datatype operation = Create | Update | Delete

text \<open>
  Task objects as they exist at run time. \<open>SyncQueueItem.data\<close> is a
  \<open>Partial<Task>\<close> read back with \<open>JSON.parse\<close>, and processBatchWithChecksum
  passes it on as a \<open>Task\<close>, so every key may be absent: \<open>None\<close> is an absent
  key. For the two dates that are compared, \<open>None\<close> also stands for a value that
  \<open>new Date\<close> turns into an invalid date (\<open>getTime()\<close> is \<open>NaN\<close>). A key
  that holds JSON \<open>null\<close> has no value here: the properties of the resolver below
  speak of keys that are present with a value.
\<close>

record task =
  t_id :: "string option"
  t_title :: "string option"
  t_description :: "string option"
  t_completed :: "bool option"
  t_created_at :: "timestamp option"
  t_updated_at :: "timestamp option"
  t_is_deleted :: "bool option"
  t_sync_status :: "string option"
  t_server_id :: "string option"
  t_last_synced_at :: "timestamp option"

record SyncQueueItem =
  q_id :: string
  q_task_id :: string
  q_operation :: operation
  q_data :: task
  q_created_at :: timestamp
  q_retry_count :: int
  q_error_message :: "string option"

record SyncError =
  e_task_id :: string
  e_operation :: string
  e_error :: string
  e_timestamp :: timestamp

record SyncResult =
  success :: bool
  synced_items :: nat
  failed_items :: nat
  errors :: "SyncError list"

datatype status = Success | Conflict | Error

record processed_item =
  p_client_id :: string
  p_server_id :: "string option"
  p_status :: status
  p_resolved_data :: "task option"
  p_error :: "string option"

record BatchSyncRequest =
  items :: "SyncQueueItem list"
  client_timestamp :: timestamp

text \<open>
  What \<open>axios.post\<close> gives back for one batch: a rejection (no connection, a
  timeout, a status outside 2xx) with its message, or the body of the answer, which
  is a \<open>BatchSyncResponse\<close>.
\<close>

datatype response = Rejected string | Answered "processed_item list"

subsection \<open>The tables of db/database.ts\<close>

record task_row =
  tr_id :: string
  tr_title :: string
  tr_description :: "string option"
  tr_completed :: bool
  tr_created_at :: timestamp
  tr_updated_at :: timestamp
  tr_is_deleted :: bool
  tr_sync_status :: string
  tr_server_id :: "string option"
  tr_last_synced_at :: "timestamp option"

record queue_row =
  r_id :: string
  r_task_id :: string
  r_operation :: operation
  r_data :: task
  r_created_at :: timestamp
  r_retry_count :: int
  r_error_message :: "string option"
  r_sync_status :: "string option"

record dlq_row =
  d_id :: string
  d_task_id :: string
  d_operation :: operation
  d_data :: task
  d_created_at :: timestamp
  d_retry_count :: int
  d_error_message :: string
  d_failed_at :: timestamp
  d_original_sync_queue_id :: string

text \<open>
  A table is the list of its rows in insertion order. \<open>createTables\<close> declares
  sync_queue with the columns id, task_id, operation, data, created_at, retry_count
  and error_message, and uses CREATE TABLE IF NOT EXISTS, so a database file that
  already has the table keeps its columns. markItemsAsInProgress writes a column
  sync_status of sync_queue: \<open>queue_has_sync_status\<close> says whether the table has
  it, and \<open>r_sync_status\<close> is its value (\<open>None\<close> is NULL), which no statement of
  the service reads.
\<close>

record database =
  tasks :: "task_row list"
  sync_queue :: "queue_row list"
  sync_dead_letter_queue :: "dlq_row list"
  queue_has_sync_status :: bool

definition createTables :: database where
  "createTables =
     \<lparr>tasks = [], sync_queue = [], sync_dead_letter_queue = [],
      queue_has_sync_status = False\<rparr>"

text \<open>
  The fields of the service (\<open>maxRetries\<close> is 3 in the source, \<open>batchSize\<close> is
  \<open>parseInt\<close> of SYNC_BATCH_SIZE or 50) and the world outside the process: whether
  the health probe is answered, the answer to the \<open>k\<close>-th batch posted in a pass
  (given the request and its X-Batch-Checksum header), the MD5 digest of Node's
  crypto module, and the clock. One call reads the clock as \<open>now\<close> at each
  \<open>new Date()\<close>.
\<close>

record SyncService =
  maxRetries :: int
  batchSize :: int

definition defaultService :: SyncService where
  "defaultService = \<lparr>maxRetries = 3, batchSize = 50\<rparr>"

record env =
  health :: bool
  post :: "nat \<Rightarrow> BatchSyncRequest \<Rightarrow> string \<Rightarrow> response"
  md5 :: "string \<Rightarrow> string"
  now :: timestamp

section \<open>Batcher\<close>

text \<open>
  createChronologicalBatches: the loop over \<open>items\<close> keeps the batches closed so
  far and \<open>currentBatch\<close>; \<open>batch_step\<close> is one iteration. \<open>parseInt\<close> can also
  give \<open>NaN\<close>, which is not a value of \<open>batchSize\<close> here.
\<close>

definition batch_step ::
  "int \<Rightarrow> 'a \<Rightarrow> 'a list list \<times> 'a list \<Rightarrow> 'a list list \<times> 'a list" where
  "batch_step limit item st =
     (case st of (batches, currentBatch) \<Rightarrow>
        if int (length currentBatch) \<ge> limit
        then (batches @ [currentBatch], [item])
        else (batches, currentBatch @ [item]))"

definition createChronologicalBatches :: "SyncService \<Rightarrow> 'a list \<Rightarrow> 'a list list" where
  "createChronologicalBatches svc its =
     (case fold (batch_step (batchSize svc)) its ([], []) of
        (batches, currentBatch) \<Rightarrow>
          if length currentBatch > 0 then batches @ [currentBatch] else batches)"

subsection \<open>Checksum\<close>

text \<open>
  Decimal digits of a number, as the template literal prints
  \<open>item.created_at.getTime()\<close>.
\<close>

fun digits :: "nat \<Rightarrow> string" where
  "digits n =
     (if n < 10 then [char_of (48 + n)]
      else digits (n div 10) @ [char_of (48 + n mod 10)])"

declare digits.simps [simp del]

definition number_string :: "int \<Rightarrow> string" where
  "number_string i = (if i < 0 then CHR ''-'' # digits (nat (- i)) else digits (nat i))"

definition operation_string :: "operation \<Rightarrow> string" where
  "operation_string op =
     (case op of Create \<Rightarrow> ''create'' | Update \<Rightarrow> ''update'' | Delete \<Rightarrow> ''delete'')"

text \<open>\<open>Array.prototype.join\<close> with a separator.\<close>

fun join :: "string \<Rightarrow> string list \<Rightarrow> string" where
  "join sep [] = []"
| "join sep [s] = s"
| "join sep (s # t # ss) = s @ sep @ join sep (t # ss)"

definition item_string :: "SyncQueueItem \<Rightarrow> string" where
  "item_string item =
     q_id item @ ''-'' @ q_task_id item @ ''-'' @ operation_string (q_operation item)
       @ ''-'' @ number_string (q_created_at item)"

definition dataString :: "SyncQueueItem list \<Rightarrow> string" where
  "dataString its = join ''|'' (map item_string its)"

definition createBatchChecksum :: "env \<Rightarrow> SyncQueueItem list \<Rightarrow> string" where
  "createBatchChecksum ev its = md5 ev (dataString its)"

subsection \<open>MD5\<close>

text \<open>
  The digest function is a field of the environment, since it belongs to Node's
  crypto module and not to the service. \<open>md5_hex\<close> is that function as RFC 1321
  defines it, on the bytes of the string and printed in lower-case hexadecimal, as
  \<open>createHash('md5').update(s).digest('hex')\<close> does; the concrete environments
  below use it.
\<close>

unbundle bit_operations_syntax

definition md5_shifts :: "nat list" where
  "md5_shifts =
     [7, 12, 17, 22, 7, 12, 17, 22, 7, 12, 17, 22, 7, 12, 17, 22,
      5, 9, 14, 20, 5, 9, 14, 20, 5, 9, 14, 20, 5, 9, 14, 20,
      4, 11, 16, 23, 4, 11, 16, 23, 4, 11, 16, 23, 4, 11, 16, 23,
      6, 10, 15, 21, 6, 10, 15, 21, 6, 10, 15, 21, 6, 10, 15, 21]"

definition md5_sines :: "32 word list" where
  "md5_sines =
     [3614090360, 3905402710, 606105819, 3250441966, 4118548399, 1200080426,
      2821735955, 4249261313, 1770035416, 2336552879, 4294925233, 2304563134,
      1804603682, 4254626195, 2792965006, 1236535329, 4129170786, 3225465664,
      643717713, 3921069994, 3593408605, 38016083, 3634488961, 3889429448,
      568446438, 3275163606, 4107603335, 1163531501, 2850285829, 4243563512,
      1735328473, 2368359562, 4294588738, 2272392833, 1839030562, 4259657740,
      2763975236, 1272893353, 4139469664, 3200236656, 681279174, 3936430074,
      3572445317, 76029189, 3654602809, 3873151461, 530742520, 3299628645,
      4096336452, 1126891415, 2878612391, 4237533241, 1700485571, 2399980690,
      4293915773, 2240044497, 1873313359, 4264355552, 2734768916, 1309151649,
      4149444226, 3174756917, 718787259, 3951481745]"

definition md5_step :: "32 word list \<Rightarrow> nat \<Rightarrow> 32 word \<times> 32 word \<times> 32 word \<times> 32 word
    \<Rightarrow> 32 word \<times> 32 word \<times> 32 word \<times> 32 word" where
  "md5_step m i st =
     (case st of (a, b, c, d) \<Rightarrow>
        let f = (if i < 16 then (b AND c) OR (NOT b AND d)
                 else if i < 32 then (d AND b) OR (NOT d AND c)
                 else if i < 48 then b XOR c XOR d
                 else c XOR (b OR NOT d));
            g = (if i < 16 then i
                 else if i < 32 then (5 * i + 1) mod 16
                 else if i < 48 then (3 * i + 5) mod 16
                 else (7 * i) mod 16)
        in (d, b + word_rotl (md5_shifts ! i) (f + a + md5_sines ! i + m ! g), b, c))"

definition md5_block :: "32 word list \<Rightarrow> 32 word \<times> 32 word \<times> 32 word \<times> 32 word
    \<Rightarrow> 32 word \<times> 32 word \<times> 32 word \<times> 32 word" where
  "md5_block m h =
     (case h of (a0, b0, c0, d0) \<Rightarrow>
        case fold (md5_step m) [0..<64] h of (a, b, c, d) \<Rightarrow>
          (a0 + a, b0 + b, c0 + c, d0 + d))"

definition md5_pad :: "nat list \<Rightarrow> nat list" where
  "md5_pad bytes =
     bytes @ [128] @ replicate ((119 - length bytes mod 64) mod 64) 0
       @ map (\<lambda>k. unat (take_bit 8 (drop_bit (8 * k) (of_nat (8 * length bytes) :: 64 word))))
           [0..<8]"

fun md5_words :: "nat \<Rightarrow> nat list \<Rightarrow> 32 word list" where
  "md5_words 0 bytes = []"
| "md5_words (Suc n) bytes =
     (case take 4 bytes of
        [b0, b1, b2, b3] \<Rightarrow>
          of_nat b0 + push_bit 8 (of_nat b1) + push_bit 16 (of_nat b2) + push_bit 24 (of_nat b3)
      | _ \<Rightarrow> 0) # md5_words n (drop 4 bytes)"

fun md5_blocks :: "nat \<Rightarrow> 32 word list \<Rightarrow> 32 word list list" where
  "md5_blocks 0 ws = []"
| "md5_blocks (Suc n) ws = take 16 ws # md5_blocks n (drop 16 ws)"

definition hex_byte :: "nat \<Rightarrow> string" where
  "hex_byte n = [''0123456789abcdef'' ! (n div 16), ''0123456789abcdef'' ! (n mod 16)]"

definition hex_word :: "32 word \<Rightarrow> string" where
  "hex_word w = concat (map (\<lambda>k. hex_byte (unat (take_bit 8 (drop_bit (8 * k) w)))) [0..<4])"

definition md5_hex :: "string \<Rightarrow> string" where
  "md5_hex s =
     (let bytes = md5_pad (map of_char s);
          ws = md5_words (length bytes div 4) bytes;
          h = fold md5_block (md5_blocks (length ws div 16) ws)
                (0x67452301, 0xefcdab89, 0x98badcfe, 0x10325476)
      in case h of (a, b, c, d) \<Rightarrow> hex_word a @ hex_word b @ hex_word c @ hex_word d)"

section \<open>Conflict resolver\<close>

datatype winnerSource = Client | Server

text \<open>
  One key of the object literal \<open>{...loser, ...winner}\<close>: the winner's value when
  the winner has the key, the loser's otherwise.
\<close>

definition spread :: "'a option \<Rightarrow> 'a option \<Rightarrow> 'a option" where
  "spread loser_value winner_value =
     (case winner_value of Some v \<Rightarrow> Some v | None \<Rightarrow> loser_value)"

definition mergeTasks :: "timestamp \<Rightarrow> task \<Rightarrow> task \<Rightarrow> winnerSource \<Rightarrow> task" where
  "mergeTasks clock winner loser source =
     \<lparr>t_id = (if source = Server then t_id winner else t_id loser),
      t_title = spread (t_title loser) (t_title winner),
      t_description = spread (t_description loser) (t_description winner),
      t_completed = spread (t_completed loser) (t_completed winner),
      t_created_at = spread (t_created_at loser) (t_created_at winner),
      t_updated_at = Some clock,
      t_is_deleted = spread (t_is_deleted loser) (t_is_deleted winner),
      t_sync_status = Some ''synced'',
      t_server_id = t_server_id winner,
      t_last_synced_at = Some clock\<rparr>"

text \<open>
  The two comparisons of resolveConflictWithPriority. \<open>===\<close> on two \<open>getTime()\<close>
  values and \<open>>\<close> on two dates are both false as soon as one date is invalid.
\<close>

definition same_time :: "timestamp option \<Rightarrow> timestamp option \<Rightarrow> bool" where
  "same_time a b = (case (a, b) of (Some x, Some y) \<Rightarrow> x = y | _ \<Rightarrow> False)"

definition later_than :: "timestamp option \<Rightarrow> timestamp option \<Rightarrow> bool" where
  "later_than a b = (case (a, b) of (Some x, Some y) \<Rightarrow> x > y | _ \<Rightarrow> False)"

definition resolveConflictWithPriority :: "timestamp \<Rightarrow> task \<Rightarrow> task \<Rightarrow> task" where
  "resolveConflictWithPriority clock localTask serverTask =
     (if same_time (t_updated_at localTask) (t_updated_at serverTask)
      then mergeTasks clock localTask serverTask Client
      else if later_than (t_updated_at localTask) (t_updated_at serverTask)
      then mergeTasks clock localTask serverTask Client
      else mergeTasks clock serverTask localTask Server)"

section \<open>Mutation queue and dead-letter store\<close>

text \<open>
  A statement run with \<open>db.run\<close> either completes or is rejected with SQLite's
  message, which the \<open>await\<close> throws: \<open>None\<close> is completion, \<open>Some m\<close> the
  exception with message \<open>m\<close>, next to the database as the call leaves it.
\<close>

type_synonym outcome = "string option \<times> database"

definition no_such_column :: string where
  "no_such_column = ''SQLITE_ERROR: no such column: sync_status''"

definition unique_failed :: "string \<Rightarrow> string" where
  "unique_failed column = ''SQLITE_CONSTRAINT: UNIQUE constraint failed: '' @ column"

definition not_null_failed :: "string \<Rightarrow> string" where
  "not_null_failed column = ''SQLITE_CONSTRAINT: NOT NULL constraint failed: '' @ column"

definition row_item :: "queue_row \<Rightarrow> SyncQueueItem" where
  "row_item row =
     \<lparr>q_id = r_id row, q_task_id = r_task_id row, q_operation = r_operation row,
      q_data = r_data row, q_created_at = r_created_at row,
      q_retry_count = r_retry_count row, q_error_message = r_error_message row\<rparr>"

text \<open>
  getPendingSyncItemsChronological: SELECT ... WHERE retry_count < ? ORDER BY
  task_id, created_at ASC. task_id is compared as text, byte by byte; created_at is
  stored by \<open>toISOString\<close>, whose text order is the order of the instants (for the
  years 0000 to 9999). SQLite leaves the order of rows with equal keys open; the
  model keeps them in table order.
\<close>

definition queue_key :: "queue_row \<Rightarrow> string \<times> timestamp" where
  "queue_key row = (r_task_id row, r_created_at row)"

definition getPendingSyncItemsChronological ::
  "SyncService \<Rightarrow> database \<Rightarrow> SyncQueueItem list" where
  "getPendingSyncItemsChronological svc db =
     map row_item
       (sort_key queue_key
          (filter (\<lambda>row. r_retry_count row < maxRetries svc) (sync_queue db)))"

fun markItemsAsInProgress :: "SyncQueueItem list \<Rightarrow> database \<Rightarrow> outcome" where
  "markItemsAsInProgress [] db = (None, db)"
| "markItemsAsInProgress (item # rest) db =
     (if queue_has_sync_status db
      then markItemsAsInProgress rest
             (db\<lparr>sync_queue :=
                   map (\<lambda>row. if r_id row = q_id item
                               then row\<lparr>r_sync_status := Some ''in-progress''\<rparr> else row)
                     (sync_queue db)\<rparr>)
      else (Some no_such_column, db))"

definition removeFromSyncQueue :: "string \<Rightarrow> database \<Rightarrow> database" where
  "removeFromSyncQueue syncId db =
     db\<lparr>sync_queue := filter (\<lambda>row. r_id row \<noteq> syncId) (sync_queue db)\<rparr>"

definition addToSyncQueue ::
  "env \<Rightarrow> string \<Rightarrow> string \<Rightarrow> operation \<Rightarrow> task \<Rightarrow> database \<Rightarrow> outcome" where
  "addToSyncQueue ev random taskId op payload db =
     (let syncId = ''sync_'' @ number_string (now ev) @ ''_'' @ random in
      if syncId \<in> r_id ` set (sync_queue db)
      then (Some (unique_failed ''sync_queue.id''), db)
      else (None,
            db\<lparr>sync_queue := sync_queue db @
                 [\<lparr>r_id = syncId, r_task_id = taskId, r_operation = op, r_data = payload,
                   r_created_at = now ev, r_retry_count = 0, r_error_message = None,
                   r_sync_status = None\<rparr>]\<rparr>))"

subsection \<open>The task service, as the sync service calls it\<close>

definition updateTaskFromSync :: "env \<Rightarrow> string \<Rightarrow> task \<Rightarrow> database \<Rightarrow> outcome" where
  "updateTaskFromSync ev ident updates db =
     (case t_title updates of
        None \<Rightarrow>
          if ident \<in> tr_id ` set (tasks db)
          then (Some (not_null_failed ''tasks.title''), db) else (None, db)
      | Some new_title \<Rightarrow>
          (None,
           db\<lparr>tasks :=
                map (\<lambda>row. if tr_id row = ident
                            then row\<lparr>tr_title := new_title,
                                     tr_description := t_description updates,
                                     tr_completed := (t_completed updates = Some True),
                                     tr_updated_at := now ev,
                                     tr_sync_status := ''synced'',
                                     tr_server_id := t_server_id updates,
                                     tr_last_synced_at := Some (now ev)\<rparr>
                            else row)
                  (tasks db)\<rparr>))"

definition markAsSynced :: "env \<Rightarrow> string \<Rightarrow> string \<Rightarrow> database \<Rightarrow> database" where
  "markAsSynced ev taskId serverId db =
     db\<lparr>tasks :=
          map (\<lambda>row. if tr_id row = taskId
                      then row\<lparr>tr_sync_status := ''synced'',
                               tr_last_synced_at := Some (now ev),
                               tr_server_id := Some serverId,
                               tr_updated_at := now ev\<rparr>
                      else row)
            (tasks db)\<rparr>"

definition mark_status :: "string \<Rightarrow> env \<Rightarrow> string \<Rightarrow> database \<Rightarrow> database" where
  "mark_status st ev taskId db =
     db\<lparr>tasks :=
          map (\<lambda>row. if tr_id row = taskId
                      then row\<lparr>tr_sync_status := st, tr_updated_at := now ev\<rparr> else row)
            (tasks db)\<rparr>"

definition markSyncError :: "env \<Rightarrow> string \<Rightarrow> database \<Rightarrow> database" where
  "markSyncError = mark_status ''error''"

definition markSyncFailed :: "env \<Rightarrow> string \<Rightarrow> database \<Rightarrow> database" where
  "markSyncFailed = mark_status ''failed''"

subsection \<open>Outcome handlers\<close>

definition handleSyncSuccess ::
  "env \<Rightarrow> SyncQueueItem \<Rightarrow> string option \<Rightarrow> task option \<Rightarrow> database \<Rightarrow> outcome" where
  "handleSyncSuccess ev item serverId resolvedTask db =
     (case resolvedTask of
        Some resolved \<Rightarrow>
          (case updateTaskFromSync ev (q_task_id item) resolved db of
             (Some m, db') \<Rightarrow> (Some m, db')
           | (None, db') \<Rightarrow> (None, removeFromSyncQueue (q_id item) db'))
      | None \<Rightarrow>
          (case serverId of
             Some sid \<Rightarrow>
               if sid \<noteq> []
               then (None, removeFromSyncQueue (q_id item) (markAsSynced ev (q_task_id item) sid db))
               else (None, removeFromSyncQueue (q_id item) db)
           | None \<Rightarrow> (None, removeFromSyncQueue (q_id item) db)))"

text \<open>
  The INSERT leaves failed_at to its default, SQLite's CURRENT_TIMESTAMP: the clock
  in whole seconds.
\<close>

definition current_timestamp :: "env \<Rightarrow> timestamp" where
  "current_timestamp ev = now ev - now ev mod 1000"

definition dead_letter_row :: "env \<Rightarrow> SyncQueueItem \<Rightarrow> string \<Rightarrow> dlq_row" where
  "dead_letter_row ev item message =
     \<lparr>d_id = ''dlq_'' @ q_id item, d_task_id = q_task_id item,
      d_operation = q_operation item, d_data = q_data item,
      d_created_at = q_created_at item, d_retry_count = q_retry_count item,
      d_error_message = message, d_failed_at = current_timestamp ev,
      d_original_sync_queue_id = q_id item\<rparr>"

definition moveToDeadLetterQueue :: "env \<Rightarrow> SyncQueueItem \<Rightarrow> string \<Rightarrow> database \<Rightarrow> outcome" where
  "moveToDeadLetterQueue ev item message db =
     (if ''dlq_'' @ q_id item \<in> d_id ` set (sync_dead_letter_queue db)
      then (Some (unique_failed ''sync_dead_letter_queue.id''), db)
      else (None,
            removeFromSyncQueue (q_id item)
              (db\<lparr>sync_dead_letter_queue :=
                    sync_dead_letter_queue db @ [dead_letter_row ev item message]\<rparr>)))"

definition update_retry :: "int \<Rightarrow> string \<Rightarrow> string \<Rightarrow> database \<Rightarrow> database" where
  "update_retry newRetryCount message syncId db =
     db\<lparr>sync_queue :=
          map (\<lambda>row. if r_id row = syncId
                      then row\<lparr>r_retry_count := newRetryCount,
                               r_error_message := Some message\<rparr>
                      else row)
            (sync_queue db)\<rparr>"

definition handleSyncError ::
  "SyncService \<Rightarrow> env \<Rightarrow> SyncQueueItem \<Rightarrow> string \<Rightarrow> database \<Rightarrow> outcome" where
  "handleSyncError svc ev item message db =
     (let newRetryCount = q_retry_count item + 1 in
      if newRetryCount \<ge> maxRetries svc
      then (case moveToDeadLetterQueue ev item message db of
              (Some m, db') \<Rightarrow> (Some m, db')
            | (None, db') \<Rightarrow> (None, markSyncFailed ev (q_task_id item) db'))
      else (None,
            markSyncError ev (q_task_id item)
              (update_retry newRetryCount message (q_id item) db)))"

section \<open>Sync coordinator\<close>

text \<open>
  processBatchWithChecksum. A loop that awaits a handler stops where the handler
  throws; it gives back the exception (if any), \<open>batchResult\<close> as counted so far and
  the database. \<open>response_loop\<close> is the loop over the answer inside \<open>try\<close>: item
  \<open>i\<close> goes with \<open>processed_items[i]\<close>, and an item past the end of the answer
  has none. \<open>failure_loop\<close> is the loop of the \<open>catch\<close> block, over every item of
  the batch.
\<close>

definition undefined_read :: string where
  "undefined_read =
     ''Cannot read properties of undefined (reading '' @ [CHR 0x27] @ ''updated_at''
       @ [CHR 0x27] @ '')''"

definition or_unknown :: "string option \<Rightarrow> string" where
  "or_unknown message =
     (case message of None \<Rightarrow> ''Unknown error''
      | Some m \<Rightarrow> if m = [] then ''Unknown error'' else m)"

definition item_error :: "env \<Rightarrow> SyncQueueItem \<Rightarrow> string \<Rightarrow> SyncError" where
  "item_error ev item message =
     \<lparr>e_task_id = q_task_id item, e_operation = operation_string (q_operation item),
      e_error = message, e_timestamp = now ev\<rparr>"

fun response_loop ::
  "SyncService \<Rightarrow> env \<Rightarrow> SyncQueueItem list \<Rightarrow> processed_item list \<Rightarrow> SyncResult
     \<Rightarrow> database \<Rightarrow> string option \<times> SyncResult \<times> database" where
  "response_loop svc ev [] processed res db = (None, res, db)"
| "response_loop svc ev (item # rest) [] res db =
     (case handleSyncError svc ev item ''No response from server'' db of
        (Some m, db') \<Rightarrow> (Some m, res, db')
      | (None, db') \<Rightarrow>
          response_loop svc ev rest [] (res\<lparr>failed_items := failed_items res + 1\<rparr>) db')"
| "response_loop svc ev (item # rest) (p # processed) res db =
     (case p_status p of
        Success \<Rightarrow>
          (case handleSyncSuccess ev item (p_server_id p) (p_resolved_data p) db of
             (Some m, db') \<Rightarrow> (Some m, res, db')
           | (None, db') \<Rightarrow>
               response_loop svc ev rest processed
                 (res\<lparr>synced_items := synced_items res + 1\<rparr>) db')
      | Conflict \<Rightarrow>
          (case p_resolved_data p of
             None \<Rightarrow> (Some undefined_read, res, db)
           | Some serverTask \<Rightarrow>
               (case handleSyncSuccess ev item (p_server_id p)
                       (Some (resolveConflictWithPriority (now ev) (q_data item) serverTask)) db of
                  (Some m, db') \<Rightarrow> (Some m, res, db')
                | (None, db') \<Rightarrow>
                    response_loop svc ev rest processed
                      (res\<lparr>synced_items := synced_items res + 1,
                           errors := errors res @
                             [item_error ev item ''Conflict resolved using last-write-wins'']\<rparr>)
                      db'))
      | Error \<Rightarrow>
          (case handleSyncError svc ev item (or_unknown (p_error p)) db of
             (Some m, db') \<Rightarrow> (Some m, res, db')
           | (None, db') \<Rightarrow>
               response_loop svc ev rest processed
                 (res\<lparr>failed_items := failed_items res + 1,
                      errors := errors res @ [item_error ev item (or_unknown (p_error p))]\<rparr>)
                 db'))"

fun failure_loop ::
  "SyncService \<Rightarrow> env \<Rightarrow> string \<Rightarrow> SyncQueueItem list \<Rightarrow> SyncResult \<Rightarrow> database
     \<Rightarrow> string option \<times> SyncResult \<times> database" where
  "failure_loop svc ev message [] res db = (None, res, db)"
| "failure_loop svc ev message (item # rest) res db =
     (case handleSyncError svc ev item message db of
        (Some m, db') \<Rightarrow> (Some m, res, db')
      | (None, db') \<Rightarrow>
          failure_loop svc ev message rest
            (res\<lparr>failed_items := failed_items res + 1,
                 errors := errors res @ [item_error ev item message]\<rparr>)
            db')"

definition empty_result :: SyncResult where
  "empty_result = \<lparr>success = True, synced_items = 0, failed_items = 0, errors = []\<rparr>"

definition processBatchWithChecksum ::
  "SyncService \<Rightarrow> env \<Rightarrow> nat \<Rightarrow> SyncQueueItem list \<Rightarrow> database
     \<Rightarrow> string option \<times> SyncResult \<times> database" where
  "processBatchWithChecksum svc ev k batch db =
     (let checksum = createBatchChecksum ev batch;
          batchRequest = \<lparr>items = batch, client_timestamp = now ev\<rparr>;
          tried = (case post ev k batchRequest checksum of
                     Rejected m \<Rightarrow> (Some m, empty_result, db)
                   | Answered processed \<Rightarrow> response_loop svc ev batch processed empty_result db);
          caught = (case tried of
                      (None, res, db') \<Rightarrow> (None, res, db')
                    | (Some m, res, db') \<Rightarrow> failure_loop svc ev m batch res db')
      in case caught of
           (None, res, db') \<Rightarrow> (None, res\<lparr>success := (failed_items res = 0)\<rparr>, db')
         | (Some m, res, db') \<Rightarrow> (Some m, res, db'))"

text \<open>The loop of \<open>sync\<close> over the batches; \<open>k\<close> counts the batches posted.\<close>

fun batches_loop ::
  "SyncService \<Rightarrow> env \<Rightarrow> nat \<Rightarrow> SyncQueueItem list list \<Rightarrow> SyncResult \<Rightarrow> database
     \<Rightarrow> string option \<times> SyncResult \<times> database" where
  "batches_loop svc ev k [] result db = (None, result, db)"
| "batches_loop svc ev k (batch # rest) result db =
     (case processBatchWithChecksum svc ev k batch db of
        (Some m, batchResult, db') \<Rightarrow> (Some m, result, db')
      | (None, batchResult, db') \<Rightarrow>
          batches_loop svc ev (Suc k) rest
            (result\<lparr>synced_items := synced_items result + synced_items batchResult,
                    failed_items := failed_items result + failed_items batchResult,
                    errors := errors result @ errors batchResult\<rparr>)
            db')"

definition checkConnectivity :: "env \<Rightarrow> bool" where
  "checkConnectivity ev = health ev"

text \<open>
  \<open>sync_try\<close> is the \<open>try\<close> block of \<open>sync\<close>: it gives back the exception that
  left it (if any) and \<open>result\<close> as the block left it. \<open>sync\<close> adds the \<open>catch\<close>
  block.
\<close>

definition sync_try ::
  "SyncService \<Rightarrow> env \<Rightarrow> database \<Rightarrow> string option \<times> SyncResult \<times> database" where
  "sync_try svc ev db =
     (if \<not> checkConnectivity ev then (Some ''No network connectivity'', empty_result, db)
      else
        let pendingItems = getPendingSyncItemsChronological svc db;
            result = empty_result\<lparr>synced_items := length pendingItems\<rparr>
        in if length pendingItems = 0 then (None, result, db)
           else
             (case markItemsAsInProgress pendingItems db of
                (Some m, db') \<Rightarrow> (Some m, result, db')
              | (None, db') \<Rightarrow>
                  (case batches_loop svc ev 0
                          (createChronologicalBatches svc pendingItems) result db' of
                     (Some m, result', db'') \<Rightarrow> (Some m, result', db'')
                   | (None, result', db'') \<Rightarrow>
                       (None, result'\<lparr>success := (failed_items result' = 0)\<rparr>, db''))))"

definition sync :: "SyncService \<Rightarrow> env \<Rightarrow> database \<Rightarrow> SyncResult \<times> database" where
  "sync svc ev db =
     (case sync_try svc ev db of
        (None, result, db') \<Rightarrow> (result, db')
      | (Some m, result, db') \<Rightarrow>
          (result\<lparr>success := False,
                  errors := errors result @
                    [\<lparr>e_task_id = ''global'', e_operation = ''sync'', e_error = m,
                      e_timestamp = now ev\<rparr>]\<rparr>,
           db'))"

subsection \<open>Status report\<close>

record sync_status_report =
  st_pending :: nat
  st_inProgress :: nat
  st_errors :: nat
  st_deadLetter :: nat
  st_lastSync :: "timestamp option"

definition getSyncStatus :: "SyncService \<Rightarrow> database \<Rightarrow> sync_status_report" where
  "getSyncStatus svc db =
     \<lparr>st_pending = length (filter (\<lambda>row. r_retry_count row < maxRetries svc) (sync_queue db)),
      st_inProgress = 0,
      st_errors = 0,
      st_deadLetter = length (sync_dead_letter_queue db),
      st_lastSync =
        (case List.map_filter tr_last_synced_at (tasks db) of
           [] \<Rightarrow> None
         | t # ts \<Rightarrow> Some (fold max ts t))\<rparr>"

section \<open>Vocabulary of the retry and escalation properties\<close>

text \<open>
  What the properties of the policy observe of a database: the (id, retry_count)
  pairs of the queue, the retry counts stored under one id, the dead-letter rows
  that refer back to one id; whether the dead-letter table can still take the row
  of an id; and the database that handleSyncError leaves. A database is
  \<open>consistent\<close> when the ids of the queue are distinct (id is its primary key)
  and no queued mutation has a dead-letter row yet.
\<close>

definition queue_view :: "database \<Rightarrow> (string \<times> int) list" where
  "queue_view db = map (\<lambda>row. (r_id row, r_retry_count row)) (sync_queue db)"

definition retry_counts :: "string \<Rightarrow> database \<Rightarrow> int list" where
  "retry_counts ident db = map snd (filter (\<lambda>p. fst p = ident) (queue_view db))"

definition dead_letters_of :: "string \<Rightarrow> database \<Rightarrow> dlq_row list" where
  "dead_letters_of ident db =
     filter (\<lambda>row. d_original_sync_queue_id row = ident) (sync_dead_letter_queue db)"

definition fresh_for :: "string \<Rightarrow> database \<Rightarrow> bool" where
  "fresh_for ident db \<longleftrightarrow> ''dlq_'' @ ident \<notin> d_id ` set (sync_dead_letter_queue db)"

definition consistent :: "database \<Rightarrow> bool" where
  "consistent db \<longleftrightarrow>
     distinct (map fst (queue_view db))
     \<and> (\<forall>p\<in>set (queue_view db). fresh_for (fst p) db)"

definition fail_step ::
  "SyncService \<Rightarrow> env \<Rightarrow> string \<Rightarrow> SyncQueueItem \<Rightarrow> database \<Rightarrow> database" where
  "fail_step svc ev msg item db = snd (handleSyncError svc ev item msg db)"

section \<open>Concrete inputs\<close>

text \<open>Two versions of one task, the local one edited ten milliseconds later.\<close>

definition local_version :: task where
  "local_version =
     \<lparr>t_id = Some ''task-1'', t_title = Some ''Buy oat milk'', t_description = Some ''two litres'',
      t_completed = Some True, t_created_at = Some 1000, t_updated_at = Some 5010,
      t_is_deleted = Some False, t_sync_status = Some ''pending'', t_server_id = None,
      t_last_synced_at = None\<rparr>"

definition server_version :: task where
  "server_version =
     \<lparr>t_id = Some ''srv_7'', t_title = Some ''Server Buy milk'', t_description = Some '''',
      t_completed = Some False, t_created_at = Some 1000, t_updated_at = Some 5000,
      t_is_deleted = Some False, t_sync_status = Some ''synced'', t_server_id = Some ''srv_7'',
      t_last_synced_at = Some 5000\<rparr>"

text \<open>
  A queue of four mutations of two tasks, enqueued alternately; the third has used
  up its retries.
\<close>

definition queue_entry ::
  "string \<Rightarrow> string \<Rightarrow> operation \<Rightarrow> timestamp \<Rightarrow> int \<Rightarrow> queue_row" where
  "queue_entry ident taskId op created retries =
     \<lparr>r_id = ident, r_task_id = taskId, r_operation = op, r_data = local_version,
      r_created_at = created, r_retry_count = retries, r_error_message = None,
      r_sync_status = None\<rparr>"

definition task_entry :: "string \<Rightarrow> string \<Rightarrow> task_row" where
  "task_entry ident ttl =
     \<lparr>tr_id = ident, tr_title = ttl, tr_description = None, tr_completed = False,
      tr_created_at = 50, tr_updated_at = 50, tr_is_deleted = False,
      tr_sync_status = ''pending'', tr_server_id = None, tr_last_synced_at = None\<rparr>"

definition example_db :: database where
  "example_db =
     \<lparr>tasks = [task_entry ''task-1'' ''Buy milk'', task_entry ''task-2'' ''Call home''],
      sync_queue =
        [queue_entry ''s1'' ''task-2'' Create 100 0,
         queue_entry ''s2'' ''task-1'' Update 200 0,
         queue_entry ''s3'' ''task-2'' Update 300 3,
         queue_entry ''s4'' ''task-1'' Delete 400 2],
      sync_dead_letter_queue = [],
      queue_has_sync_status = False\<rparr>"


text \<open>
  Remote authorities: one that answers \<open>success\<close> for every item of a batch, with
  an identifier and no resolved state, and one whose every answer is lost. The
  environment built on them reads the clock as 2000 and hashes with MD5.
\<close>

definition success_remote :: "nat \<Rightarrow> BatchSyncRequest \<Rightarrow> string \<Rightarrow> response" where
  "success_remote k request checksum =
     Answered (map (\<lambda>item. \<lparr>p_client_id = q_task_id item,
                             p_server_id = Some (''srv_'' @ q_task_id item),
                             p_status = Success, p_resolved_data = None, p_error = None\<rparr>)
                 (items request))"

definition failing_remote :: "nat \<Rightarrow> BatchSyncRequest \<Rightarrow> string \<Rightarrow> response" where
  "failing_remote k request checksum = Rejected ''Network Error''"

definition test_env ::
  "bool \<Rightarrow> (nat \<Rightarrow> BatchSyncRequest \<Rightarrow> string \<Rightarrow> response) \<Rightarrow> env" where
  "test_env reachable remote =
     \<lparr>health = reachable, post = remote, md5 = md5_hex, now = 2000\<rparr>"

text \<open>
  The database after \<open>initialize\<close> and one \<open>addToSyncQueue\<close>, and the same
  database as a file whose sync_queue table has the column sync_status.
\<close>

definition one_entry_db :: database where
  "one_entry_db =
     snd (addToSyncQueue (test_env True success_remote) ''k3x9q2m1z'' ''task-1'' Create
            local_version createTables)"

definition one_entry_db_with_column :: database where
  "one_entry_db_with_column =
     snd (addToSyncQueue (test_env True success_remote) ''k3x9q2m1z'' ''task-1'' Create
            local_version (createTables\<lparr>queue_has_sync_status := True\<rparr>))"

text \<open>\<open>n\<close> consecutive sync passes; each starts from the database the last one left.\<close>

definition run_passes :: "SyncService \<Rightarrow> env \<Rightarrow> nat \<Rightarrow> database \<Rightarrow> database" where
  "run_passes svc ev n db = ((\<lambda>d. snd (sync svc ev d)) ^^ n) db"

section \<open>Properties of the batcher\<close>

lemma batch_step_pair:
  "batch_step n x (bs, cur) =
     (if int (length cur) \<ge> n then (bs @ [cur], [x]) else (bs, cur @ [x]))"
  by (simp add: batch_step_def)

text \<open>
  The invariant of the loop of createChronologicalBatches for a positive size: the
  closed batches are full, the current one is not over-full, and together they hold
  the items read so far, in order.
\<close>

lemma fold_batch_step:
  assumes "0 < n" "\<forall>b\<in>set bs. int (length b) = n" "int (length cur) \<le> n"
    and "fold (batch_step n) xs (bs, cur) = (bs', cur')"
  shows "concat bs' @ cur' = concat bs @ cur @ xs
       \<and> (\<forall>b\<in>set bs'. int (length b) = n)
       \<and> int (length cur') \<le> n
       \<and> (cur' = [] \<longrightarrow> xs = [] \<and> cur = [])"
  using assms
proof (induction xs arbitrary: bs cur)
  case Nil
  then show ?case by simp
next
  case (Cons x xs)
  show ?case
  proof (cases "int (length cur) \<ge> n")
    case True
    with Cons.prems have len: "int (length cur) = n" by simp
    have step: "fold (batch_step n) xs (bs @ [cur], [x]) = (bs', cur')"
      using Cons.prems(4) True by (simp add: batch_step_pair)
    have a: "\<forall>b\<in>set (bs @ [cur]). int (length b) = n"
      using Cons.prems(2) len by simp
    have b: "int (length [x]) \<le> n" using Cons.prems(1) by simp
    note ih = Cons.IH [OF Cons.prems(1) a b step]
    from ih have "concat bs' @ cur' = concat bs @ cur @ x # xs" by simp
    moreover from ih have "\<forall>b\<in>set bs'. int (length b) = n" by blast
    moreover from ih have "int (length cur') \<le> n" by blast
    moreover from ih have "cur' \<noteq> []" by blast
    ultimately show ?thesis by blast
  next
    case False
    have step: "fold (batch_step n) xs (bs, cur @ [x]) = (bs', cur')"
      using Cons.prems(4) False by (simp add: batch_step_pair)
    have b: "int (length (cur @ [x])) \<le> n" using False by simp
    note ih = Cons.IH [OF Cons.prems(1) Cons.prems(2) b step]
    from ih have "concat bs' @ cur' = concat bs @ cur @ x # xs" by simp
    moreover from ih have "\<forall>b\<in>set bs'. int (length b) = n" by blast
    moreover from ih have "int (length cur') \<le> n" by blast
    moreover from ih have "cur' \<noteq> []" by blast
    ultimately show ?thesis by blast
  qed
qed

text \<open>
  Claim C8. For a positive batch size, createChronologicalBatches cuts the items
  into consecutive chunks: their concatenation is the input, no chunk is empty or
  longer than the batch size, and every chunk but the last has exactly the batch
  size.
\<close>

theorem createChronologicalBatches_partition:
  assumes "0 < batchSize svc"
  shows "concat (createChronologicalBatches svc its) = its
       \<and> (\<forall>b\<in>set (createChronologicalBatches svc its).
             b \<noteq> [] \<and> int (length b) \<le> batchSize svc)
       \<and> (\<forall>b\<in>set (butlast (createChronologicalBatches svc its)).
             int (length b) = batchSize svc)"
proof -
  obtain bs cur where f: "fold (batch_step (batchSize svc)) its ([], []) = (bs, cur)"
    by (cases "fold (batch_step (batchSize svc)) its ([], [])") blast
  have e: "\<forall>b\<in>set ([]::'a list list). int (length b) = batchSize svc" by simp
  have l: "int (length ([]::'a list)) \<le> batchSize svc" using assms by simp
  note inv = fold_batch_step [OF assms e l f]
  from inv have c: "concat bs @ cur = its" by simp
  from inv have full: "\<forall>b\<in>set bs. int (length b) = batchSize svc" by blast
  from inv have small: "int (length cur) \<le> batchSize svc" by blast
  have ne: "\<forall>b\<in>set bs. b \<noteq> []" using full assms by auto
  show ?thesis
  proof (cases "cur = []")
    case True
    then have eq: "createChronologicalBatches svc its = bs"
      by (simp add: createChronologicalBatches_def f)
    have "\<forall>b\<in>set (butlast bs). int (length b) = batchSize svc"
      using full by (blast dest: in_set_butlastD)
    then show ?thesis using c full ne True unfolding eq by simp
  next
    case False
    then have eq: "createChronologicalBatches svc its = bs @ [cur]"
      by (simp add: createChronologicalBatches_def f)
    show ?thesis using c full ne small False unfolding eq by simp
  qed
qed

theorem createChronologicalBatches_partition_witness:
  "0 < batchSize (defaultService\<lparr>batchSize := 2\<rparr>)
   \<and> createChronologicalBatches (defaultService\<lparr>batchSize := 2\<rparr>) [1, 2, 3, 4, 5 :: nat]
       = [[1, 2], [3, 4], [5]]
   \<and> concat (createChronologicalBatches (defaultService\<lparr>batchSize := 2\<rparr>) [1, 2, 3, 4, 5 :: nat])
       = [1, 2, 3, 4, 5]"
  using createChronologicalBatches_partition
          [of "defaultService\<lparr>batchSize := 2\<rparr>" "[1, 2, 3, 4, 5 :: nat]"]
  by (simp add: createChronologicalBatches_def batch_step_pair defaultService_def)

section \<open>Properties of the status report\<close>

text \<open>
  Claim C10. getSyncStatus reports inProgress = 0 and errors = 0 for every state of
  the queue and of the dead-letter store: the two fields are the literal 0, whatever
  the rows hold in sync_status and error_message.
\<close>

theorem getSyncStatus_counters_constant:
  "st_inProgress (getSyncStatus svc db) = 0 \<and> st_errors (getSyncStatus svc db) = 0"
  by (simp add: getSyncStatus_def)

section \<open>Properties of the conflict resolver\<close>

text \<open>
  Claim C3, as amended. When the local version was updated later than the remote
  one, the merged task is \<open>mergeTasks\<close> with the local version as winner: every
  content field the local version has (title, description, completed, created_at,
  is_deleted) keeps the local value, and so does \<open>server_id\<close>, which is the
  local one whether or not the remote version carries one. The field \<open>id\<close> is
  the \<open>id\<close> of the remote version.
\<close>

theorem resolve_local_newer:
  assumes "t_updated_at localTask = Some a" and "t_updated_at serverTask = Some b" and "b < a"
  shows "resolveConflictWithPriority clock localTask serverTask
           = mergeTasks clock localTask serverTask Client
       \<and> t_id (resolveConflictWithPriority clock localTask serverTask) = t_id serverTask
       \<and> (t_title localTask \<noteq> None \<longrightarrow>
            t_title (resolveConflictWithPriority clock localTask serverTask) = t_title localTask)
       \<and> (t_description localTask \<noteq> None \<longrightarrow>
            t_description (resolveConflictWithPriority clock localTask serverTask)
              = t_description localTask)
       \<and> (t_completed localTask \<noteq> None \<longrightarrow>
            t_completed (resolveConflictWithPriority clock localTask serverTask)
              = t_completed localTask)
       \<and> (t_created_at localTask \<noteq> None \<longrightarrow>
            t_created_at (resolveConflictWithPriority clock localTask serverTask)
              = t_created_at localTask)
       \<and> (t_is_deleted localTask \<noteq> None \<longrightarrow>
            t_is_deleted (resolveConflictWithPriority clock localTask serverTask)
              = t_is_deleted localTask)
       \<and> t_server_id (resolveConflictWithPriority clock localTask serverTask)
           = t_server_id localTask"
proof -
  have "\<not> same_time (t_updated_at localTask) (t_updated_at serverTask)"
    using assms by (simp add: same_time_def)
  moreover have "later_than (t_updated_at localTask) (t_updated_at serverTask)"
    using assms by (simp add: later_than_def)
  ultimately have r: "resolveConflictWithPriority clock localTask serverTask
      = mergeTasks clock localTask serverTask Client"
    by (simp add: resolveConflictWithPriority_def)
  show ?thesis unfolding r
    by (auto simp: mergeTasks_def spread_def)
qed

theorem resolve_local_newer_witness:
  "t_updated_at local_version = Some 5010 \<and> t_updated_at server_version = Some 5000
   \<and> t_id (resolveConflictWithPriority 9000 local_version server_version) = Some ''srv_7''
   \<and> t_title (resolveConflictWithPriority 9000 local_version server_version)
       = Some ''Buy oat milk''
   \<and> t_completed (resolveConflictWithPriority 9000 local_version server_version) = Some True
   \<and> t_server_id (resolveConflictWithPriority 9000 local_version server_version) = None"
proof -
  have l: "t_updated_at local_version = Some 5010" by (simp add: local_version_def)
  have s: "t_updated_at server_version = Some 5000" by (simp add: server_version_def)
  have lt: "(5000::int) < 5010" by simp
  note r = resolve_local_newer [OF l s lt, of 9000]
  have v: "t_id server_version = Some ''srv_7''" by (simp add: server_version_def)
  have w: "t_title local_version = Some ''Buy oat milk''"
    "t_completed local_version = Some True" "t_server_id local_version = None"
    by (simp_all add: local_version_def)
  have "t_id (resolveConflictWithPriority 9000 local_version server_version) = Some ''srv_7''"
    using r v by metis
  moreover have "t_title (resolveConflictWithPriority 9000 local_version server_version)
       = Some ''Buy oat milk''"
    using r w(1) by (metis option.distinct(1))
  moreover have "t_completed (resolveConflictWithPriority 9000 local_version server_version)
       = Some True"
    using r w(2) by (metis option.distinct(1))
  moreover have "t_server_id (resolveConflictWithPriority 9000 local_version server_version)
       = None"
    using r w(3) by metis
  ultimately show ?thesis using l s by blast
qed

text \<open>
  Claim C3 as stated fails for the identifier the remote authority assigns,
  \<open>server_id\<close>: the local version is the later one and has no server_id, the
  remote version has \<open>srv_7\<close>, and the merged task has none.
\<close>

theorem resolve_local_newer_counterexample:
  "later_than (t_updated_at local_version) (t_updated_at server_version)
   \<and> t_server_id server_version = Some ''srv_7''
   \<and> t_server_id (resolveConflictWithPriority 9000 local_version server_version) = None"
  by (simp add: later_than_def same_time_def resolveConflictWithPriority_def mergeTasks_def
      local_version_def server_version_def)

text \<open>
  Claim C7. When both versions carry the same updated_at instant, the local version
  is the winner; and whichever version wins, the merged task has sync_status
  \<open>synced\<close> and the resolution instant as last_synced_at and updated_at.
\<close>

theorem resolve_equal_times:
  "t_sync_status (resolveConflictWithPriority clock localTask serverTask) = Some ''synced''
   \<and> t_last_synced_at (resolveConflictWithPriority clock localTask serverTask) = Some clock
   \<and> t_updated_at (resolveConflictWithPriority clock localTask serverTask) = Some clock
   \<and> (t_updated_at localTask = Some t \<and> t_updated_at serverTask = Some t \<longrightarrow>
        resolveConflictWithPriority clock localTask serverTask
          = mergeTasks clock localTask serverTask Client
        \<and> (t_title localTask \<noteq> None \<longrightarrow>
             t_title (resolveConflictWithPriority clock localTask serverTask)
               = t_title localTask)
        \<and> (t_description localTask \<noteq> None \<longrightarrow>
             t_description (resolveConflictWithPriority clock localTask serverTask)
               = t_description localTask)
        \<and> (t_completed localTask \<noteq> None \<longrightarrow>
             t_completed (resolveConflictWithPriority clock localTask serverTask)
               = t_completed localTask)
        \<and> (t_created_at localTask \<noteq> None \<longrightarrow>
             t_created_at (resolveConflictWithPriority clock localTask serverTask)
               = t_created_at localTask)
        \<and> (t_is_deleted localTask \<noteq> None \<longrightarrow>
             t_is_deleted (resolveConflictWithPriority clock localTask serverTask)
               = t_is_deleted localTask))"
  by (auto simp: resolveConflictWithPriority_def mergeTasks_def spread_def same_time_def)

theorem resolve_equal_times_witness:
  "resolveConflictWithPriority 9000 (local_version\<lparr>t_updated_at := Some 5000\<rparr>) server_version
       = \<lparr>t_id = Some ''srv_7'', t_title = Some ''Buy oat milk'',
          t_description = Some ''two litres'', t_completed = Some True,
          t_created_at = Some 1000, t_updated_at = Some 9000, t_is_deleted = Some False,
          t_sync_status = Some ''synced'', t_server_id = None, t_last_synced_at = Some 9000\<rparr>"
proof -
  have l: "t_updated_at (local_version\<lparr>t_updated_at := Some 5000\<rparr>) = Some 5000" by simp
  have s: "t_updated_at server_version = Some 5000" by (simp add: server_version_def)
  have "resolveConflictWithPriority 9000 (local_version\<lparr>t_updated_at := Some 5000\<rparr>) server_version
          = mergeTasks 9000 (local_version\<lparr>t_updated_at := Some 5000\<rparr>) server_version Client"
    using resolve_equal_times
            [of 9000 "local_version\<lparr>t_updated_at := Some 5000\<rparr>" server_version 5000] l s
    by blast
  then show ?thesis
    by (simp add: mergeTasks_def spread_def local_version_def server_version_def)
qed

section \<open>Properties of the mutation queue\<close>

lemma item_key_row_item:
  "map (\<lambda>item. (q_task_id item, q_created_at item)) (map row_item rows) = map queue_key rows"
  by (simp add: row_item_def queue_key_def)

lemma sorted_pairs_nth:
  fixes ks :: "(string \<times> timestamp) list"
  assumes "sorted ks" and "i < j" and "j < length ks"
  shows "fst (ks ! i) \<le> fst (ks ! j)"
    and "fst (ks ! i) = fst (ks ! j) \<Longrightarrow> snd (ks ! i) \<le> snd (ks ! j)"
proof -
  have le: "ks ! i \<le> ks ! j"
    using assms by (simp add: sorted_nth_mono)
  then show "fst (ks ! i) \<le> fst (ks ! j)"
    by (auto simp: less_eq_prod_def)
  show "fst (ks ! i) = fst (ks ! j) \<Longrightarrow> snd (ks ! i) \<le> snd (ks ! j)"
    using le by (auto simp: less_eq_prod_def)
qed

text \<open>
  Claim C6. For every queue and every maxRetries, the drain returns exactly the
  entries whose retry_count is below maxRetries (as a multiset: each row once), in
  ascending order of (task_id, created_at). Hence the entries of one task are
  contiguous, and in the order of their created_at.
\<close>

theorem getPending_eligible_sorted:
  "mset (getPendingSyncItemsChronological svc db)
     = mset (map row_item (filter (\<lambda>row. r_retry_count row < maxRetries svc) (sync_queue db)))
   \<and> sorted (map (\<lambda>item. (q_task_id item, q_created_at item))
               (getPendingSyncItemsChronological svc db))
   \<and> (\<forall>i j k. i < j \<and> j < k \<and> k < length (getPendingSyncItemsChronological svc db)
          \<and> q_task_id (getPendingSyncItemsChronological svc db ! i)
              = q_task_id (getPendingSyncItemsChronological svc db ! k)
        \<longrightarrow> q_task_id (getPendingSyncItemsChronological svc db ! j)
              = q_task_id (getPendingSyncItemsChronological svc db ! i))
   \<and> (\<forall>i j. i < j \<and> j < length (getPendingSyncItemsChronological svc db)
          \<and> q_task_id (getPendingSyncItemsChronological svc db ! i)
              = q_task_id (getPendingSyncItemsChronological svc db ! j)
        \<longrightarrow> q_created_at (getPendingSyncItemsChronological svc db ! i)
              \<le> q_created_at (getPendingSyncItemsChronological svc db ! j))"
proof -
  define P where "P = getPendingSyncItemsChronological svc db"
  define ks where "ks = map (\<lambda>item. (q_task_id item, q_created_at item)) P"
  have m: "mset P
      = mset (map row_item (filter (\<lambda>row. r_retry_count row < maxRetries svc) (sync_queue db)))"
    by (simp add: P_def getPendingSyncItemsChronological_def)
  have s: "sorted ks"
    unfolding ks_def P_def getPendingSyncItemsChronological_def item_key_row_item
    by (rule sorted_sort_key)
  have len: "length ks = length P" by (simp add: ks_def)
  have nth: "\<And>i. i < length P \<Longrightarrow> ks ! i = (q_task_id (P ! i), q_created_at (P ! i))"
    by (simp add: ks_def)
  have contiguous: "q_task_id (P ! j) = q_task_id (P ! i)"
    if "i < j" "j < k" "k < length P" "q_task_id (P ! i) = q_task_id (P ! k)" for i j k
  proof -
    have "fst (ks ! i) \<le> fst (ks ! j)"
      using sorted_pairs_nth(1) [OF s, of i j] that len by simp
    moreover have "fst (ks ! j) \<le> fst (ks ! k)"
      using sorted_pairs_nth(1) [OF s, of j k] that len by simp
    ultimately show ?thesis using that nth by simp
  qed
  have chrono: "q_created_at (P ! i) \<le> q_created_at (P ! j)"
    if "i < j" "j < length P" "q_task_id (P ! i) = q_task_id (P ! j)" for i j
    using sorted_pairs_nth(2) [OF s, of i j] that len nth by simp
  show ?thesis
    using m s contiguous chrono unfolding P_def [symmetric] ks_def by blast
qed

theorem getPending_eligible_sorted_witness:
  "map q_id (getPendingSyncItemsChronological defaultService example_db) = [''s2'', ''s4'', ''s1'']
   \<and> q_created_at (getPendingSyncItemsChronological defaultService example_db ! 0)
       \<le> q_created_at (getPendingSyncItemsChronological defaultService example_db ! 1)"
proof -
  have ids: "map q_id (getPendingSyncItemsChronological defaultService example_db)
      = [''s2'', ''s4'', ''s1'']"
    by code_simp
  have len: "(1::nat) < length (getPendingSyncItemsChronological defaultService example_db)"
    by code_simp
  have same: "q_task_id (getPendingSyncItemsChronological defaultService example_db ! 0)
      = q_task_id (getPendingSyncItemsChronological defaultService example_db ! 1)"
    by code_simp
  have "q_created_at (getPendingSyncItemsChronological defaultService example_db ! 0)
       \<le> q_created_at (getPendingSyncItemsChronological defaultService example_db ! 1)"
    using getPending_eligible_sorted [of defaultService example_db] len same
    by (metis zero_less_one)
  with ids show ?thesis by blast
qed

section \<open>Properties of the checksum\<close>








text \<open>
  The ids of the queue are written by addToSyncQueue alone, as \<open>sync_\<close>, the
  clock in milliseconds, \<open>_\<close> and nine characters of a base-36 fraction: with
  the clock at or after the epoch, an id contains no \<open>-\<close>.
\<close>

lemma digits_are_digits:
  "c \<in> set (digits n) \<Longrightarrow> 48 \<le> (of_char c :: nat) \<and> (of_char c :: nat) \<le> 57"
proof (induction n rule: digits.induct)
  case (1 n)
  show ?case
  proof (cases "n < 10")
    case True
    then have "digits n = [char_of (48 + n)]" by (subst digits.simps) simp
    then have "c = char_of (48 + n)" using "1.prems" by simp
    then show ?thesis using True by simp
  next
    case False
    then have d: "digits n = digits (n div 10) @ [char_of (48 + n mod 10)]"
      by (subst digits.simps) simp
    show ?thesis
    proof (cases "c \<in> set (digits (n div 10))")
      case True
      then show ?thesis using "1.IH" False by simp
    next
      case False
      then have "c = char_of (48 + n mod 10)" using "1.prems" d by simp
      moreover have "n mod 10 < 10" by simp
      ultimately show ?thesis by simp
    qed
  qed
qed

lemma generated_id_no_dash:
  assumes "0 \<le> t" and "CHR ''-'' \<notin> set random"
  shows "CHR ''-'' \<notin> set (''sync_'' @ number_string t @ ''_'' @ random)"
proof -
  have "CHR ''-'' \<notin> set (digits (nat t))"
  proof
    assume "CHR ''-'' \<in> set (digits (nat t))"
    then have "48 \<le> (of_char CHR ''-'' :: nat)" using digits_are_digits by blast
    then show False by simp
  qed
  then show ?thesis using assms by (simp add: number_string_def)
qed

lemma addToSyncQueue_id_no_dash:
  assumes "0 \<le> now ev" and "CHR ''-'' \<notin> set random"
    and "row \<in> set (sync_queue (snd (addToSyncQueue ev random taskId op payload db)))"
  shows "row \<in> set (sync_queue db) \<or> CHR ''-'' \<notin> set (r_id row)"
proof (cases "''sync_'' @ number_string (now ev) @ ''_'' @ random \<in> r_id ` set (sync_queue db)")
  case True
  then show ?thesis using assms(3) by (simp add: addToSyncQueue_def Let_def)
next
  case False
  then have "row \<in> set (sync_queue db)
      \<or> r_id row = ''sync_'' @ number_string (now ev) @ ''_'' @ random"
    using assms(3) by (auto simp: addToSyncQueue_def Let_def)
  then show ?thesis using generated_id_no_dash [OF assms(1,2)] by auto
qed



section \<open>Properties of a sync pass\<close>

text \<open>The definitions that evaluate a pass on a concrete database.\<close>

lemmas eval_defs =
  sync_def sync_try_def checkConnectivity_def test_env_def empty_result_def
  getPendingSyncItemsChronological_def defaultService_def one_entry_db_def
  one_entry_db_with_column_def addToSyncQueue_def createTables_def row_item_def
  no_such_column_def Let_def createChronologicalBatches_def batch_step_pair
  processBatchWithChecksum_def createBatchChecksum_def success_remote_def
  handleSyncSuccess_def markAsSynced_def removeFromSyncQueue_def

lemmas failure_defs =
  failing_remote_def handleSyncError_def update_retry_def markSyncError_def markSyncFailed_def
  mark_status_def moveToDeadLetterQueue_def dead_letter_row_def item_error_def




text \<open>
  Claim C2, evaluated. One \<open>addToSyncQueue\<close> on the database that
  \<open>initialize\<close> builds, then one pass against the remote authority that answers
  success for every item: the UPDATE of markItemsAsInProgress names a column the
  table does not have, the pass stops there with \<open>success = false\<close>,
  \<open>synced_items = 1\<close> and the entry still queued. When the table has the column,
  the pass removes the entry and reports \<open>synced_items = 2\<close>: the count starts at
  the number of pending items and each batch adds its synced items again.
\<close>

theorem sync_after_enqueue_outcome:
  "fst (sync defaultService (test_env True success_remote) one_entry_db) =
     \<lparr>success = False, synced_items = 1, failed_items = 0,
       errors = [\<lparr>e_task_id = ''global'', e_operation = ''sync'',
                  e_error = ''SQLITE_ERROR: no such column: sync_status'',
                  e_timestamp = 2000\<rparr>]\<rparr>
   \<and> snd (sync defaultService (test_env True success_remote) one_entry_db) = one_entry_db
   \<and> map r_id (sync_queue one_entry_db) = [''sync_2000_k3x9q2m1z'']
   \<and> fst (sync defaultService (test_env True success_remote) one_entry_db_with_column) =
       \<lparr>success = True, synced_items = 2, failed_items = 0, errors = []\<rparr>
   \<and> sync_queue (snd (sync defaultService (test_env True success_remote) one_entry_db_with_column)) = []"
proof -
  have n: "number_string 2000 = ''2000''" by code_simp
  show ?thesis by (simp add: eval_defs n)
qed

section \<open>Properties of the retry and escalation policy\<close>

text \<open>
  Claim C5. When the error outcome takes the retry count of a mutation to
  maxRetries or beyond, and the dead-letter store has no row for the mutation yet,
  handleSyncError completes and: the store gains one row that carries the
  mutation's id (as original_sync_queue_id, and behind the prefix \<open>dlq_\<close> as its
  own id), task_id, operation, data, created_at and retry_count as the queue held
  them, the message of the error, and the clock reading in whole seconds as
  failed_at; the queue
  loses the rows with that id and no other; and every task row of the mutation's
  task_id has sync_status \<open>failed\<close>.
\<close>

theorem handleSyncError_dead_letters:
  assumes "maxRetries svc \<le> q_retry_count item + 1"
    and "''dlq_'' @ q_id item \<notin> d_id ` set (sync_dead_letter_queue db)"
  shows "fst (handleSyncError svc ev item message db) = None
       \<and> sync_dead_letter_queue (snd (handleSyncError svc ev item message db))
           = sync_dead_letter_queue db @
             [\<lparr>d_id = ''dlq_'' @ q_id item, d_task_id = q_task_id item,
               d_operation = q_operation item, d_data = q_data item,
               d_created_at = q_created_at item, d_retry_count = q_retry_count item,
               d_error_message = message, d_failed_at = current_timestamp ev,
               d_original_sync_queue_id = q_id item\<rparr>]
       \<and> sync_queue (snd (handleSyncError svc ev item message db))
           = filter (\<lambda>row. r_id row \<noteq> q_id item) (sync_queue db)
       \<and> q_id item \<notin> r_id ` set (sync_queue (snd (handleSyncError svc ev item message db)))
       \<and> map tr_id (tasks (snd (handleSyncError svc ev item message db))) = map tr_id (tasks db)
       \<and> (\<forall>row\<in>set (tasks (snd (handleSyncError svc ev item message db))).
             tr_id row = q_task_id item \<longrightarrow> tr_sync_status row = ''failed'')"
  using assms
  by (auto simp: handleSyncError_def moveToDeadLetterQueue_def removeFromSyncQueue_def
        markSyncFailed_def mark_status_def dead_letter_row_def Let_def)

theorem handleSyncError_dead_letters_witness:
  "maxRetries defaultService \<le> q_retry_count (row_item (queue_entry ''s4'' ''task-1'' Delete 400 2)) + 1
   \<and> map d_original_sync_queue_id
         (sync_dead_letter_queue
            (snd (handleSyncError defaultService (test_env True failing_remote)
                    (row_item (queue_entry ''s4'' ''task-1'' Delete 400 2)) ''Network Error''
                    example_db)))
       = [''s4'']
   \<and> map r_id
         (sync_queue
            (snd (handleSyncError defaultService (test_env True failing_remote)
                    (row_item (queue_entry ''s4'' ''task-1'' Delete 400 2)) ''Network Error''
                    example_db)))
       = [''s1'', ''s2'', ''s3'']
   \<and> map tr_sync_status
         (tasks
            (snd (handleSyncError defaultService (test_env True failing_remote)
                    (row_item (queue_entry ''s4'' ''task-1'' Delete 400 2)) ''Network Error''
                    example_db)))
       = [''failed'', ''pending'']"
proof -
  let ?item = "row_item (queue_entry ''s4'' ''task-1'' Delete 400 2)"
  let ?ev = "test_env True failing_remote"
  have h1: "maxRetries defaultService \<le> q_retry_count ?item + 1"
    by (simp add: defaultService_def row_item_def queue_entry_def)
  have h2: "''dlq_'' @ q_id ?item \<notin> d_id ` set (sync_dead_letter_queue example_db)"
    by (simp add: example_db_def)
  note t = handleSyncError_dead_letters [OF h1 h2, of ?ev "''Network Error''"]
  have dl: "map d_original_sync_queue_id
         (sync_dead_letter_queue (snd (handleSyncError defaultService ?ev ?item ''Network Error''
                    example_db))) = [''s4'']"
    using t by (simp add: example_db_def row_item_def queue_entry_def)
  have q: "map r_id (sync_queue (snd (handleSyncError defaultService ?ev ?item ''Network Error''
                    example_db))) = [''s1'', ''s2'', ''s3'']"
    using t by (simp add: example_db_def row_item_def queue_entry_def)
  have ts: "map tr_sync_status (tasks (snd (handleSyncError defaultService ?ev ?item
                    ''Network Error'' example_db))) = [''failed'', ''pending'']"
    by (simp add: handleSyncError_def moveToDeadLetterQueue_def removeFromSyncQueue_def
        markSyncFailed_def mark_status_def Let_def example_db_def row_item_def queue_entry_def
        defaultService_def task_entry_def)
  show ?thesis using h1 dl q ts by blast
qed

text \<open>
  On a table without the column sync_status a pass never changes the database: it
  stops at the probe, or finds nothing pending, or is thrown out of
  markItemsAsInProgress at the first item.
\<close>

lemma sync_without_column:
  assumes "\<not> queue_has_sync_status db"
  shows "snd (sync svc ev db) = db"
proof -
  have m: "markItemsAsInProgress its db = (Some no_such_column, db)" if "its \<noteq> []" for its
    using that assms by (cases its) simp_all
  show ?thesis
    by (auto simp: sync_def sync_try_def Let_def m split: prod.splits option.splits)
qed

lemma run_passes_without_column:
  assumes "\<not> queue_has_sync_status db"
  shows "run_passes svc ev n db = db"
  by (induction n) (simp_all add: run_passes_def sync_without_column assms)

subsection \<open>Every dispatch rejected, on a table that has the column sync_status\<close>

text \<open>
  When every POST is rejected with the message \<open>msg\<close>, a pass hands each drained
  item to handleSyncError once, in drain order. On a consistent database no handler
  throws, so the database after the pass is the fold of \<open>fail_step\<close> over the
  drained items.
\<close>

lemma handleSyncError_fresh:
  assumes "fresh_for (q_id item) db"
  shows "fst (handleSyncError svc ev item msg db) = None"
  using assms
  by (simp add: handleSyncError_def moveToDeadLetterQueue_def fresh_for_def Let_def)

lemma fail_step_fresh_other:
  assumes "fresh_for ident db" and "ident \<noteq> q_id item"
  shows "fresh_for ident (fail_step svc ev msg item db)"
  using assms
  by (auto simp: fail_step_def handleSyncError_def moveToDeadLetterQueue_def fresh_for_def Let_def
        removeFromSyncQueue_def markSyncFailed_def markSyncError_def mark_status_def
        update_retry_def dead_letter_row_def)

lemma failure_loop_fold:
  assumes "distinct (map q_id its)" and "\<forall>item\<in>set its. fresh_for (q_id item) db"
  shows "\<exists>res'. failure_loop svc ev msg its res db
           = (None, res', fold (fail_step svc ev msg) its db)"
  using assms
proof (induction its arbitrary: res db)
  case Nil
  then show ?case by simp
next
  case (Cons item its)
  have f: "fresh_for (q_id item) db" using Cons.prems by simp
  have h: "handleSyncError svc ev item msg db = (None, fail_step svc ev msg item db)"
    using handleSyncError_fresh [OF f, of svc ev msg]
    unfolding fail_step_def by (metis prod.collapse)
  define db' where "db' = fail_step svc ev msg item db"
  have d: "distinct (map q_id its)" using Cons.prems by simp
  have "\<forall>x\<in>set its. fresh_for (q_id x) db'"
  proof
    fix x assume x: "x \<in> set its"
    then have "q_id x \<in> q_id ` set its" by simp
    then have "q_id x \<noteq> q_id item" using Cons.prems(1) by auto
    moreover have "fresh_for (q_id x) db" using Cons.prems(2) x by simp
    ultimately show "fresh_for (q_id x) db'"
      unfolding db'_def by (rule fail_step_fresh_other [rotated])
  qed
  from Cons.IH [OF d this] show ?case
    unfolding db'_def by (simp add: h)
qed


lemma fold_fail_step_fresh_other:
  assumes "fresh_for ident db" and "ident \<notin> q_id ` set its"
  shows "fresh_for ident (fold (fail_step svc ev msg) its db)"
  using assms
proof (induction its arbitrary: db)
  case Nil
  then show ?case by simp
next
  case (Cons item its)
  have "fresh_for ident (fail_step svc ev msg item db)"
    using Cons.prems by (intro fail_step_fresh_other) auto
  moreover have "ident \<notin> q_id ` set its" using Cons.prems by simp
  ultimately show ?case using Cons.IH by simp
qed

lemma processBatch_rejected:
  assumes "\<forall>k request checksum. post ev k request checksum = Rejected msg"
    and "distinct (map q_id batch)" and "\<forall>item\<in>set batch. fresh_for (q_id item) db"
  shows "\<exists>res. processBatchWithChecksum svc ev k batch db
           = (None, res, fold (fail_step svc ev msg) batch db)"
proof -
  obtain res' where "failure_loop svc ev msg batch empty_result db
      = (None, res', fold (fail_step svc ev msg) batch db)"
    using failure_loop_fold [OF assms(2,3)] by blast
  then show ?thesis
    using assms(1) by (simp add: processBatchWithChecksum_def Let_def)
qed

lemma batches_loop_rejected:
  assumes "\<forall>k request checksum. post ev k request checksum = Rejected msg"
    and "distinct (map q_id (concat batches))"
    and "\<forall>item\<in>set (concat batches). fresh_for (q_id item) db"
  shows "\<exists>res. batches_loop svc ev k batches result db
           = (None, res, fold (fail_step svc ev msg) (concat batches) db)"
  using assms(2,3)
proof (induction batches arbitrary: k result db)
  case Nil
  then show ?case by simp
next
  case (Cons batch batches)
  have d1: "distinct (map q_id batch)" and d2: "distinct (map q_id (concat batches))"
    and disj: "q_id ` set batch \<inter> q_id ` set (concat batches) = {}"
    using Cons.prems(1) by auto
  have f1: "\<forall>item\<in>set batch. fresh_for (q_id item) db" using Cons.prems(2) by simp
  obtain res where p: "processBatchWithChecksum svc ev k batch db
      = (None, res, fold (fail_step svc ev msg) batch db)"
    using processBatch_rejected [OF assms(1) d1 f1] by blast
  have f2: "\<forall>item\<in>set (concat batches).
      fresh_for (q_id item) (fold (fail_step svc ev msg) batch db)"
  proof
    fix x assume x: "x \<in> set (concat batches)"
    then have "fresh_for (q_id x) db" using Cons.prems(2) by simp
    moreover have "q_id x \<notin> q_id ` set batch" using disj x by blast
    ultimately show "fresh_for (q_id x) (fold (fail_step svc ev msg) batch db)"
      by (rule fold_fail_step_fresh_other)
  qed
  from Cons.IH [OF d2 f2] show ?case by (simp add: p)
qed

lemma fold_batch_step_concat:
  assumes "fold (batch_step n) xs (bs, cur) = (bs', cur')"
  shows "concat bs' @ cur' = concat bs @ cur @ xs"
  using assms
proof (induction xs arbitrary: bs cur)
  case Nil
  then show ?case by simp
next
  case (Cons x xs)
  show ?case
  proof (cases "int (length cur) \<ge> n")
    case True
    then have "fold (batch_step n) xs (bs @ [cur], [x]) = (bs', cur')"
      using Cons.prems by (simp add: batch_step_pair)
    from Cons.IH [OF this] show ?thesis by simp
  next
    case False
    then have "fold (batch_step n) xs (bs, cur @ [x]) = (bs', cur')"
      using Cons.prems by (simp add: batch_step_pair)
    from Cons.IH [OF this] show ?thesis by simp
  qed
qed

lemma concat_createChronologicalBatches:
  "concat (createChronologicalBatches svc its) = its"
proof -
  obtain bs cur where f: "fold (batch_step (batchSize svc)) its ([], []) = (bs, cur)"
    by (cases "fold (batch_step (batchSize svc)) its ([], [])") blast
  from fold_batch_step_concat [OF f] have "concat bs @ cur = its" by simp
  then show ?thesis
    by (cases "cur = []") (simp_all add: createChronologicalBatches_def f)
qed






lemma fail_step_cases:
  "fail_step svc ev msg item db =
     (if maxRetries svc \<le> q_retry_count item + 1
      then if fresh_for (q_id item) db
           then markSyncFailed ev (q_task_id item)
                  (removeFromSyncQueue (q_id item)
                     (db\<lparr>sync_dead_letter_queue :=
                           sync_dead_letter_queue db @ [dead_letter_row ev item msg]\<rparr>))
           else db
      else markSyncError ev (q_task_id item)
             (update_retry (q_retry_count item + 1) msg (q_id item) db))"
  by (simp add: fail_step_def handleSyncError_def moveToDeadLetterQueue_def fresh_for_def Let_def)

lemma mark_status_view [simp]:
  "queue_view (mark_status st ev taskId db) = queue_view db"
  "sync_dead_letter_queue (mark_status st ev taskId db) = sync_dead_letter_queue db"
  "queue_has_sync_status (mark_status st ev taskId db) = queue_has_sync_status db"
  by (simp_all add: mark_status_def queue_view_def)

lemma removeFromSyncQueue_view [simp]:
  "queue_view (removeFromSyncQueue ident db) = filter (\<lambda>p. fst p \<noteq> ident) (queue_view db)"
  "sync_dead_letter_queue (removeFromSyncQueue ident db) = sync_dead_letter_queue db"
  "queue_has_sync_status (removeFromSyncQueue ident db) = queue_has_sync_status db"
  by (simp_all add: removeFromSyncQueue_def queue_view_def filter_map comp_def)

lemma update_retry_view [simp]:
  "queue_view (update_retry c msg ident db)
     = map (\<lambda>p. if fst p = ident then (ident, c) else p) (queue_view db)"
  "sync_dead_letter_queue (update_retry c msg ident db) = sync_dead_letter_queue db"
  "queue_has_sync_status (update_retry c msg ident db) = queue_has_sync_status db"
  by (simp_all add: update_retry_def queue_view_def)

lemma dlq_append_view [simp]:
  "queue_view (db\<lparr>sync_dead_letter_queue := rows\<rparr>) = queue_view db"
  by (simp add: queue_view_def)

lemma fail_step_view:
  "queue_view (fail_step svc ev msg item db) =
     (if maxRetries svc \<le> q_retry_count item + 1
      then if fresh_for (q_id item) db
           then filter (\<lambda>p. fst p \<noteq> q_id item) (queue_view db)
           else queue_view db
      else map (\<lambda>p. if fst p = q_id item then (q_id item, q_retry_count item + 1) else p)
             (queue_view db))"
  by (simp add: fail_step_cases markSyncFailed_def markSyncError_def)

lemma fail_step_dead_letters:
  "sync_dead_letter_queue (fail_step svc ev msg item db) =
     (if maxRetries svc \<le> q_retry_count item + 1 \<and> fresh_for (q_id item) db
      then sync_dead_letter_queue db @ [dead_letter_row ev item msg]
      else sync_dead_letter_queue db)"
  by (simp add: fail_step_cases markSyncFailed_def markSyncError_def)

lemma fail_step_column:
  "queue_has_sync_status (fail_step svc ev msg item db) = queue_has_sync_status db"
  by (simp add: fail_step_cases markSyncFailed_def markSyncError_def)


lemma dlq_id_inject: "(''dlq_'' @ a = ''dlq_'' @ b) = (a = b)"
  by simp

lemma fail_step_consistent:
  assumes "consistent db"
  shows "consistent (fail_step svc ev msg item db)"
proof (cases "maxRetries svc \<le> q_retry_count item + 1")
  case True
  show ?thesis
  proof (cases "fresh_for (q_id item) db")
    case False
    with True assms show ?thesis by (simp add: fail_step_cases)
  next
    case fresh: True
    have v: "queue_view (fail_step svc ev msg item db)
        = filter (\<lambda>p. fst p \<noteq> q_id item) (queue_view db)"
      using True fresh by (simp add: fail_step_view)
    have d: "sync_dead_letter_queue (fail_step svc ev msg item db)
        = sync_dead_letter_queue db @ [dead_letter_row ev item msg]"
      using True fresh by (simp add: fail_step_dead_letters)
    have "distinct (map fst (filter (\<lambda>p. fst p \<noteq> q_id item) (queue_view db)))"
      using assms by (simp add: consistent_def distinct_map_filter)
    moreover have "fresh_for (fst p) (fail_step svc ev msg item db)"
      if "p \<in> set (filter (\<lambda>p. fst p \<noteq> q_id item) (queue_view db))" for p
    proof -
      from that have "p \<in> set (queue_view db)" and ne: "fst p \<noteq> q_id item" by simp_all
      then have "fresh_for (fst p) db" using assms by (simp add: consistent_def)
      then show ?thesis using ne
        by (simp add: fresh_for_def d dead_letter_row_def)
    qed
    ultimately show ?thesis unfolding consistent_def v by blast
  qed
next
  case False
  have v: "queue_view (fail_step svc ev msg item db)
      = map (\<lambda>p. if fst p = q_id item then (q_id item, q_retry_count item + 1) else p)
          (queue_view db)"
    using False by (simp add: fail_step_view)
  have d: "sync_dead_letter_queue (fail_step svc ev msg item db) = sync_dead_letter_queue db"
    using False by (simp add: fail_step_dead_letters)
  have m: "map fst (map (\<lambda>p. if fst p = q_id item then (q_id item, q_retry_count item + 1) else p)
          (queue_view db)) = map fst (queue_view db)"
    by (induction "queue_view db") auto
  have fr: "fresh_for x (fail_step svc ev msg item db) = fresh_for x db" for x
    by (simp add: fresh_for_def d)
  have "\<forall>p\<in>set (queue_view (fail_step svc ev msg item db)). fresh_for (fst p) db"
  proof
    fix p assume "p \<in> set (queue_view (fail_step svc ev msg item db))"
    then have "fst p \<in> set (map fst (queue_view (fail_step svc ev msg item db)))" by simp
    then have "fst p \<in> set (map fst (queue_view db))" unfolding v m .
    then obtain q where "q \<in> set (queue_view db)" "fst q = fst p" by auto
    then show "fresh_for (fst p) db" using assms by (metis consistent_def)
  qed
  then have fresh: "\<forall>p\<in>set (queue_view (fail_step svc ev msg item db)).
      fresh_for (fst p) (fail_step svc ev msg item db)"
    by (simp only: fr)
  from assms have "distinct (map fst (queue_view db))" by (simp add: consistent_def)
  then have dist: "distinct (map fst (queue_view (fail_step svc ev msg item db)))"
    by (simp only: v m)
  show ?thesis unfolding consistent_def using dist fresh by blast
qed

lemma fold_fail_step_consistent:
  assumes "consistent db"
  shows "consistent (fold (fail_step svc ev msg) its db)"
  using assms by (induction its arbitrary: db) (simp_all add: fail_step_consistent)

lemma fold_fail_step_column:
  "queue_has_sync_status (fold (fail_step svc ev msg) its db) = queue_has_sync_status db"
  by (induction its arbitrary: db) (simp_all add: fail_step_column)

lemma filter_id_after_remove:
  fixes xs :: "(string \<times> int) list"
  shows "filter (\<lambda>p. fst p = ident) (filter (\<lambda>p. fst p \<noteq> other) xs)
      = (if ident = other then [] else filter (\<lambda>p. fst p = ident) xs)"
  by (induction xs) auto

lemma filter_id_after_update:
  fixes xs :: "(string \<times> int) list"
  shows "map snd (filter (\<lambda>p. fst p = ident)
                    (map (\<lambda>p. if fst p = other then (other, c) else p) xs))
      = (if ident = other then map (\<lambda>_. c) (map snd (filter (\<lambda>p. fst p = ident) xs))
         else map snd (filter (\<lambda>p. fst p = ident) xs))"
  by (induction xs) auto

lemma retry_counts_fail_step:
  "retry_counts ident (fail_step svc ev msg item db) =
     (if maxRetries svc \<le> q_retry_count item + 1
      then if fresh_for (q_id item) db \<and> ident = q_id item then [] else retry_counts ident db
      else if ident = q_id item
           then map (\<lambda>_. q_retry_count item + 1) (retry_counts ident db)
           else retry_counts ident db)"
proof (cases "maxRetries svc \<le> q_retry_count item + 1")
  case True
  show ?thesis
  proof (cases "fresh_for (q_id item) db")
    case fresh: True
    have "queue_view (fail_step svc ev msg item db)
        = filter (\<lambda>p. fst p \<noteq> q_id item) (queue_view db)"
      using True fresh by (simp add: fail_step_view)
    then have "retry_counts ident (fail_step svc ev msg item db)
        = map snd (filter (\<lambda>p. fst p = ident)
            (filter (\<lambda>p. fst p \<noteq> q_id item) (queue_view db)))"
      by (simp only: retry_counts_def)
    also have "\<dots> = (if ident = q_id item then [] else retry_counts ident db)"
      by (cases "ident = q_id item")
         (simp_all only: filter_id_after_remove retry_counts_def if_True if_False list.map refl)
    finally show ?thesis using True fresh by simp
  next
    case False
    then have "queue_view (fail_step svc ev msg item db) = queue_view db"
      using True by (simp add: fail_step_view)
    then have "retry_counts ident (fail_step svc ev msg item db) = retry_counts ident db"
      by (simp only: retry_counts_def)
    then show ?thesis using True False by simp
  qed
next
  case False
  then have "queue_view (fail_step svc ev msg item db)
      = map (\<lambda>p. if fst p = q_id item then (q_id item, q_retry_count item + 1) else p)
          (queue_view db)"
    by (simp add: fail_step_view)
  then have "retry_counts ident (fail_step svc ev msg item db)
      = map snd (filter (\<lambda>p. fst p = ident)
          (map (\<lambda>p. if fst p = q_id item then (q_id item, q_retry_count item + 1) else p)
             (queue_view db)))"
    by (simp only: retry_counts_def)
  also have "\<dots> = (if ident = q_id item
                    then map (\<lambda>_. q_retry_count item + 1) (retry_counts ident db)
                    else retry_counts ident db)"
    by (cases "ident = q_id item") (simp_all only: filter_id_after_update retry_counts_def if_True if_False)
  finally show ?thesis using False by simp
qed

lemma dead_letters_fail_step:
  "dead_letters_of ident (fail_step svc ev msg item db) =
     (if maxRetries svc \<le> q_retry_count item + 1 \<and> fresh_for (q_id item) db
         \<and> ident = q_id item
      then dead_letters_of ident db @ [dead_letter_row ev item msg]
      else dead_letters_of ident db)"
  by (auto simp: dead_letters_of_def fail_step_dead_letters dead_letter_row_def)

lemma fail_step_other:
  assumes "q_id item \<noteq> ident"
  shows "retry_counts ident (fail_step svc ev msg item db) = retry_counts ident db"
    and "dead_letters_of ident (fail_step svc ev msg item db) = dead_letters_of ident db"
  using assms by (auto simp: retry_counts_fail_step dead_letters_fail_step)

lemma fold_fail_step_other:
  assumes "ident \<notin> q_id ` set its"
  shows "retry_counts ident (fold (fail_step svc ev msg) its db) = retry_counts ident db
       \<and> dead_letters_of ident (fold (fail_step svc ev msg) its db) = dead_letters_of ident db"
  using assms
proof (induction its arbitrary: db)
  case Nil
  then show ?case by simp
next
  case (Cons item its)
  then have "q_id item \<noteq> ident" and "ident \<notin> q_id ` set its" by auto
  then show ?case using Cons.IH [of "fail_step svc ev msg item db"]
    by (simp add: fail_step_other)
qed

lemma fail_step_self:
  assumes "fresh_for (q_id item) db"
  shows "retry_counts (q_id item) (fail_step svc ev msg item db) =
           (if maxRetries svc \<le> q_retry_count item + 1 then []
            else map (\<lambda>_. q_retry_count item + 1) (retry_counts (q_id item) db))"
    and "dead_letters_of (q_id item) (fail_step svc ev msg item db) =
           (if maxRetries svc \<le> q_retry_count item + 1
            then dead_letters_of (q_id item) db @ [dead_letter_row ev item msg]
            else dead_letters_of (q_id item) db)"
  using assms by (simp_all add: retry_counts_fail_step dead_letters_fail_step)


lemma fold_fail_step_self:
  assumes "distinct (map q_id its)" and "item \<in> set its" and "fresh_for (q_id item) db"
  shows "retry_counts (q_id item) (fold (fail_step svc ev msg) its db) =
           (if maxRetries svc \<le> q_retry_count item + 1 then []
            else map (\<lambda>_. q_retry_count item + 1) (retry_counts (q_id item) db))"
    and "dead_letters_of (q_id item) (fold (fail_step svc ev msg) its db) =
           (if maxRetries svc \<le> q_retry_count item + 1
            then dead_letters_of (q_id item) db @ [dead_letter_row ev item msg]
            else dead_letters_of (q_id item) db)"
proof -
  obtain pre post where its: "its = pre @ item # post"
    using assms(2) by (auto dest: split_list)
  have pre: "q_id item \<notin> q_id ` set pre" and post: "q_id item \<notin> q_id ` set post"
    using assms(1) unfolding its by auto
  define db1 where "db1 = fold (fail_step svc ev msg) pre db"
  define db2 where "db2 = fail_step svc ev msg item db1"
  have f: "fold (fail_step svc ev msg) its db = fold (fail_step svc ev msg) post db2"
    by (simp add: its db1_def db2_def)
  have fresh1: "fresh_for (q_id item) db1"
    unfolding db1_def using assms(3) pre by (rule fold_fail_step_fresh_other)
  have o1: "retry_counts (q_id item) db1 = retry_counts (q_id item) db"
    "dead_letters_of (q_id item) db1 = dead_letters_of (q_id item) db"
    unfolding db1_def using fold_fail_step_other [OF pre] by simp_all
  have o3: "retry_counts (q_id item) (fold (fail_step svc ev msg) post db2)
      = retry_counts (q_id item) db2"
    "dead_letters_of (q_id item) (fold (fail_step svc ev msg) post db2)
      = dead_letters_of (q_id item) db2"
    using fold_fail_step_other [OF post] by simp_all
  show "retry_counts (q_id item) (fold (fail_step svc ev msg) its db) =
           (if maxRetries svc \<le> q_retry_count item + 1 then []
            else map (\<lambda>_. q_retry_count item + 1) (retry_counts (q_id item) db))"
    by (simp only: f o3(1)) (simp only: db2_def fail_step_self(1) [OF fresh1] o1)
  show "dead_letters_of (q_id item) (fold (fail_step svc ev msg) its db) =
           (if maxRetries svc \<le> q_retry_count item + 1
            then dead_letters_of (q_id item) db @ [dead_letter_row ev item msg]
            else dead_letters_of (q_id item) db)"
    by (simp only: f o3(2)) (simp only: db2_def fail_step_self(2) [OF fresh1] o1)
qed

lemma markItems_with_column:
  assumes "queue_has_sync_status db"
  shows "fst (markItemsAsInProgress its db) = None
       \<and> queue_view (snd (markItemsAsInProgress its db)) = queue_view db
       \<and> sync_dead_letter_queue (snd (markItemsAsInProgress its db)) = sync_dead_letter_queue db
       \<and> queue_has_sync_status (snd (markItemsAsInProgress its db))"
  using assms
proof (induction its arbitrary: db)
  case Nil
  then show ?case by simp
next
  case (Cons item its)
  define db' where "db' = db\<lparr>sync_queue :=
       map (\<lambda>row. if r_id row = q_id item
                   then row\<lparr>r_sync_status := Some ''in-progress''\<rparr> else row)
         (sync_queue db)\<rparr>"
  have step: "markItemsAsInProgress (item # its) db = markItemsAsInProgress its db'"
    using Cons.prems by (simp add: db'_def)
  have v: "queue_view db' = queue_view db"
    by (simp add: db'_def queue_view_def comp_def)
  have d: "sync_dead_letter_queue db' = sync_dead_letter_queue db"
    and c: "queue_has_sync_status db'"
    using Cons.prems by (simp_all add: db'_def)
  from Cons.IH [OF c] show ?case unfolding step v d by simp
qed

lemma getPending_view:
  "set (map (\<lambda>x. (q_id x, q_retry_count x)) (getPendingSyncItemsChronological svc db))
     = {p \<in> set (queue_view db). snd p < maxRetries svc}"
  by (auto simp: getPendingSyncItemsChronological_def queue_view_def row_item_def)

lemma getPending_distinct:
  assumes "distinct (map fst (queue_view db))"
  shows "distinct (map q_id (getPendingSyncItemsChronological svc db))"
proof -
  define rows where "rows = filter (\<lambda>row. r_retry_count row < maxRetries svc) (sync_queue db)"
  have "distinct (map r_id (sync_queue db))"
    using assms by (simp add: queue_view_def comp_def)
  then have "distinct (map r_id rows)"
    unfolding rows_def by (rule distinct_map_filter)
  moreover have "mset (map r_id (sort_key queue_key rows)) = mset (map r_id rows)"
    by simp
  ultimately have "distinct (map r_id (sort_key queue_key rows))"
    by (metis mset_eq_imp_distinct_iff)
  moreover have "map q_id (getPendingSyncItemsChronological svc db)
      = map r_id (sort_key queue_key rows)"
    by (simp add: getPendingSyncItemsChronological_def rows_def row_item_def comp_def)
  ultimately show ?thesis by simp
qed



lemma sync_rejected_db:
  assumes col: "queue_has_sync_status db" and cons: "consistent db" and up: "health ev"
    and rej: "\<forall>k request checksum. post ev k request checksum = Rejected msg"
  shows "snd (sync svc ev db) =
           (if getPendingSyncItemsChronological svc db = [] then db
            else fold (fail_step svc ev msg) (getPendingSyncItemsChronological svc db)
                   (snd (markItemsAsInProgress (getPendingSyncItemsChronological svc db) db)))"
proof (cases "getPendingSyncItemsChronological svc db = []")
  case True
  then show ?thesis
    by (simp add: sync_def sync_try_def checkConnectivity_def up Let_def)
next
  case False
  define its where "its = getPendingSyncItemsChronological svc db"
  define db1 where "db1 = snd (markItemsAsInProgress its db)"
  note mk = markItems_with_column [OF col, of its]
  have m: "markItemsAsInProgress its db = (None, db1)"
    using mk unfolding db1_def by (metis prod.collapse)
  have dl: "sync_dead_letter_queue db1 = sync_dead_letter_queue db"
    using mk unfolding db1_def by blast
  have d: "distinct (map q_id (concat (createChronologicalBatches svc its)))"
    unfolding concat_createChronologicalBatches its_def
    using cons by (intro getPending_distinct) (simp add: consistent_def)
  have fresh: "\<forall>item\<in>set (concat (createChronologicalBatches svc its)).
      fresh_for (q_id item) db1"
    unfolding concat_createChronologicalBatches
  proof
    fix item assume "item \<in> set its"
    then have "(q_id item, q_retry_count item)
        \<in> set (map (\<lambda>x. (q_id x, q_retry_count x)) (getPendingSyncItemsChronological svc db))"
      unfolding its_def by (simp add: rev_image_eqI)
    then have "(q_id item, q_retry_count item) \<in> set (queue_view db)"
      unfolding getPending_view by simp
    then have "fresh_for (q_id item) db" using cons by (force simp: consistent_def)
    then show "fresh_for (q_id item) db1" by (simp add: fresh_for_def dl)
  qed
  obtain res where b: "batches_loop svc ev 0 (createChronologicalBatches svc its)
        (empty_result\<lparr>synced_items := length its\<rparr>) db1
      = (None, res, fold (fail_step svc ev msg) its db1)"
    using batches_loop_rejected [OF rej d fresh, of svc 0 "empty_result\<lparr>synced_items := length its\<rparr>"]
    unfolding concat_createChronologicalBatches by blast
  have ne: "its \<noteq> []" using False by (simp add: its_def)
  have "snd (sync svc ev db) = fold (fail_step svc ev msg) its db1"
    using ne by (simp add: sync_def sync_try_def checkConnectivity_def up Let_def
        its_def [symmetric] m b)
  then show ?thesis using False unfolding db1_def its_def by simp
qed

lemma sync_rejected_invariant:
  assumes col: "queue_has_sync_status db" and cons: "consistent db" and up: "health ev"
    and rej: "\<forall>k request checksum. post ev k request checksum = Rejected msg"
  shows "queue_has_sync_status (snd (sync svc ev db)) \<and> consistent (snd (sync svc ev db))"
proof -
  define its where "its = getPendingSyncItemsChronological svc db"
  define db1 where "db1 = snd (markItemsAsInProgress its db)"
  note mk = markItems_with_column [OF col, of its]
  have c1: "queue_has_sync_status db1" using mk unfolding db1_def by blast
  have "queue_view db1 = queue_view db" "sync_dead_letter_queue db1 = sync_dead_letter_queue db"
    using mk unfolding db1_def by blast+
  then have k1: "consistent db1"
    using cons by (simp add: consistent_def fresh_for_def)
  have "queue_has_sync_status (fold (fail_step svc ev msg) its db1)"
    using c1 by (simp add: fold_fail_step_column)
  moreover have "consistent (fold (fail_step svc ev msg) its db1)"
    using k1 by (rule fold_fail_step_consistent)
  ultimately show ?thesis
    using col cons
    unfolding sync_rejected_db [OF col cons up rej] its_def [symmetric] db1_def [symmetric]
    by simp
qed

lemma retry_counts_single:
  assumes "retry_counts ident db = [c]"
  shows "(ident, c) \<in> set (queue_view db)"
proof -
  from assms obtain p where "filter (\<lambda>p. fst p = ident) (queue_view db) = [p]" "snd p = c"
    by (auto simp: retry_counts_def)
  then have "p \<in> set (filter (\<lambda>p. fst p = ident) (queue_view db))" by simp
  then have "p \<in> set (queue_view db)" "fst p = ident" by simp_all
  then show ?thesis using \<open>snd p = c\<close> by (metis prod.collapse)
qed

lemma retry_counts_member:
  assumes "(ident, c) \<in> set (queue_view db)"
  shows "c \<in> set (retry_counts ident db)"
  using assms by (force simp: retry_counts_def)

lemma sync_rejected_tracked:
  assumes col: "queue_has_sync_status db" and cons: "consistent db" and up: "health ev"
    and rej: "\<forall>k request checksum. post ev k request checksum = Rejected msg"
    and rc: "retry_counts ident db = [c]" and el: "c < maxRetries svc"
  shows "retry_counts ident (snd (sync svc ev db)) =
           (if maxRetries svc \<le> c + 1 then [] else [c + 1])"
    and "map d_retry_count (dead_letters_of ident (snd (sync svc ev db))) =
           (if maxRetries svc \<le> c + 1
            then map d_retry_count (dead_letters_of ident db) @ [c]
            else map d_retry_count (dead_letters_of ident db))"
proof -
  define its where "its = getPendingSyncItemsChronological svc db"
  define db1 where "db1 = snd (markItemsAsInProgress its db)"
  note mk = markItems_with_column [OF col, of its]
  have v1: "queue_view db1 = queue_view db"
    and d1: "sync_dead_letter_queue db1 = sync_dead_letter_queue db"
    using mk unfolding db1_def by blast+
  have mem: "(ident, c) \<in> set (queue_view db)" using rc by (rule retry_counts_single)
  then have "(ident, c) \<in> {p \<in> set (queue_view db). snd p < maxRetries svc}"
    using el by simp
  then have "(ident, c) \<in> set (map (\<lambda>x. (q_id x, q_retry_count x)) its)"
    unfolding its_def getPending_view .
  then obtain item where item: "item \<in> set its" "q_id item = ident" "q_retry_count item = c"
    by auto
  have ne: "its \<noteq> []" using item by auto
  have s: "snd (sync svc ev db) = fold (fail_step svc ev msg) its db1"
    using ne unfolding sync_rejected_db [OF col cons up rej] its_def db1_def by simp
  have dist: "distinct (map q_id its)"
    unfolding its_def using cons by (intro getPending_distinct) (simp add: consistent_def)
  have "fresh_for ident db" using cons mem by (force simp: consistent_def)
  then have fresh: "fresh_for (q_id item) db1" using item by (simp add: fresh_for_def d1)
  have r1: "retry_counts ident db1 = [c]" using rc v1 by (simp add: retry_counts_def)
  have l1: "dead_letters_of ident db1 = dead_letters_of ident db"
    using d1 by (simp add: dead_letters_of_def)
  note f = fold_fail_step_self [OF dist item(1) fresh, of svc ev msg]
  show "retry_counts ident (snd (sync svc ev db)) =
           (if maxRetries svc \<le> c + 1 then [] else [c + 1])"
    using f(1) unfolding s item r1 by simp
  show "map d_retry_count (dead_letters_of ident (snd (sync svc ev db))) =
           (if maxRetries svc \<le> c + 1
            then map d_retry_count (dead_letters_of ident db) @ [c]
            else map d_retry_count (dead_letters_of ident db))"
    using f(2) item(3) unfolding s item(2) l1 by (simp add: dead_letter_row_def)
qed

lemma sync_rejected_untouched:
  assumes col: "queue_has_sync_status db" and cons: "consistent db" and up: "health ev"
    and rej: "\<forall>k request checksum. post ev k request checksum = Rejected msg"
    and rc: "\<forall>c\<in>set (retry_counts ident db). maxRetries svc \<le> c"
  shows "retry_counts ident (snd (sync svc ev db)) = retry_counts ident db"
    and "dead_letters_of ident (snd (sync svc ev db)) = dead_letters_of ident db"
proof -
  define its where "its = getPendingSyncItemsChronological svc db"
  define db1 where "db1 = snd (markItemsAsInProgress its db)"
  note mk = markItems_with_column [OF col, of its]
  have v1: "queue_view db1 = queue_view db"
    and d1: "sync_dead_letter_queue db1 = sync_dead_letter_queue db"
    using mk unfolding db1_def by blast+
  have out: "ident \<notin> q_id ` set its"
  proof
    assume "ident \<in> q_id ` set its"
    then obtain item where "item \<in> set its" "q_id item = ident" by auto
    then have "(ident, q_retry_count item) \<in> set (map (\<lambda>x. (q_id x, q_retry_count x)) its)"
      by (simp add: rev_image_eqI)
    then have "(ident, q_retry_count item) \<in> set (queue_view db)"
      and "q_retry_count item < maxRetries svc"
      unfolding its_def getPending_view by simp_all
    then show False using rc retry_counts_member by fastforce
  qed
  have r1: "retry_counts ident db1 = retry_counts ident db"
    using v1 by (simp add: retry_counts_def)
  have l1: "dead_letters_of ident db1 = dead_letters_of ident db"
    using d1 by (simp add: dead_letters_of_def)
  have s: "snd (sync svc ev db) = (if its = [] then db else fold (fail_step svc ev msg) its db1)"
    unfolding sync_rejected_db [OF col cons up rej] its_def db1_def ..
  note f = fold_fail_step_other [OF out, of svc ev msg db1]
  show "retry_counts ident (snd (sync svc ev db)) = retry_counts ident db"
    unfolding s using f r1 by simp
  show "dead_letters_of ident (snd (sync svc ev db)) = dead_letters_of ident db"
    unfolding s using f l1 by simp
qed


lemma run_passes_Suc:
  "run_passes svc ev (Suc n) db = snd (sync svc ev (run_passes svc ev n db))"
  by (simp add: run_passes_def)

lemma drained_iff:
  "ident \<in> q_id ` set (getPendingSyncItemsChronological svc db)
     \<longleftrightarrow> (\<exists>c\<in>set (retry_counts ident db). c < maxRetries svc)"
proof -
  have "ident \<in> q_id ` set (getPendingSyncItemsChronological svc db)
      \<longleftrightarrow> (\<exists>c. (ident, c)
            \<in> set (map (\<lambda>x. (q_id x, q_retry_count x)) (getPendingSyncItemsChronological svc db)))"
    by force
  also have "\<dots> \<longleftrightarrow> (\<exists>c. (ident, c) \<in> set (queue_view db) \<and> c < maxRetries svc)"
    unfolding getPending_view by simp
  also have "\<dots> \<longleftrightarrow> (\<exists>c\<in>set (retry_counts ident db). c < maxRetries svc)"
    by (force simp: retry_counts_def)
  finally show ?thesis .
qed

text \<open>
  A mutation queued with retry count 0 and every dispatch rejected: while fewer than
  maxRetries passes have run, the queue holds it with the number of passes as its
  retry count and the dead-letter store has no row for it; from pass maxRetries on
  it is out of the queue and the store has exactly one row for it, with the retry
  count maxRetries - 1.
\<close>

lemma failing_mutation_passes:
  assumes col: "queue_has_sync_status db" and cons: "consistent db" and up: "health ev"
    and rej: "\<forall>k request checksum. post ev k request checksum = Rejected msg"
    and rc: "retry_counts ident db = [0]" and dl: "dead_letters_of ident db = []"
  shows "queue_has_sync_status (run_passes svc ev k db) \<and> consistent (run_passes svc ev k db)
       \<and> (int k < maxRetries svc \<longrightarrow>
            retry_counts ident (run_passes svc ev k db) = [int k]
            \<and> dead_letters_of ident (run_passes svc ev k db) = [])
       \<and> (0 < maxRetries svc \<and> maxRetries svc \<le> int k \<longrightarrow>
            retry_counts ident (run_passes svc ev k db) = []
            \<and> map d_retry_count (dead_letters_of ident (run_passes svc ev k db))
                = [maxRetries svc - 1])"
proof (induction k)
  case 0
  show ?case using col cons rc dl by (simp add: run_passes_def)
next
  case (Suc k)
  define d where "d = run_passes svc ev k db"
  have c: "queue_has_sync_status d" and i: "consistent d"
    using Suc.IH by (simp_all add: d_def)
  note inv = sync_rejected_invariant [OF c i up rej, of svc]
  show ?case
  proof (cases "int k < maxRetries svc")
    case True
    then have r: "retry_counts ident d = [int k]" and l: "dead_letters_of ident d = []"
      using Suc.IH by (simp_all add: d_def)
    note t = sync_rejected_tracked [OF c i up rej r True]
    show ?thesis
    proof (cases "maxRetries svc \<le> int k + 1")
      case last: True
      then have "maxRetries svc - 1 = int k" using True by simp
      then show ?thesis
        using inv t l last True unfolding run_passes_Suc d_def [symmetric] by simp
    next
      case False
      then have "retry_counts ident (snd (sync svc ev d)) = [int (Suc k)]" using t(1) by simp
      moreover have "map d_retry_count (dead_letters_of ident (snd (sync svc ev d))) = []"
        using t(2) l False by simp
      ultimately show ?thesis
        using inv False unfolding run_passes_Suc d_def [symmetric] by simp
    qed
  next
    case False
    show ?thesis
    proof (cases "0 < maxRetries svc")
      case pos: True
      then have r: "retry_counts ident d = []"
        and l: "map d_retry_count (dead_letters_of ident d) = [maxRetries svc - 1]"
        using Suc.IH False by (simp_all add: d_def)
      have "\<forall>c\<in>set (retry_counts ident d). maxRetries svc \<le> c" using r by simp
      note u = sync_rejected_untouched [OF c i up rej this]
      show ?thesis
        using inv u r l False unfolding run_passes_Suc d_def [symmetric] by simp
    next
      case False
      then show ?thesis
        using inv unfolding run_passes_Suc d_def [symmetric] by simp
    qed
  qed
qed

text \<open>
  With a positive maxRetries, the mutation is drained in the first maxRetries passes
  and in no later one.
\<close>

lemma failing_mutation_dispatches:
  assumes "queue_has_sync_status db" and "consistent db" and "health ev"
    and "\<forall>k request checksum. post ev k request checksum = Rejected msg"
    and "retry_counts ident db = [0]" and "dead_letters_of ident db = []"
    and "0 < maxRetries svc"
  shows "ident \<in> q_id ` set (getPendingSyncItemsChronological svc (run_passes svc ev k db))
           \<longleftrightarrow> int k < maxRetries svc"
  using failing_mutation_passes [OF assms(1-6), of svc k] assms(7)
  by (cases "int k < maxRetries svc") (simp_all add: drained_iff)

text \<open>
  Claim C4, evaluated. One mutation is enqueued and every dispatch is rejected. On
  the database that \<open>initialize\<close> builds, no number of passes changes anything:
  the retry count stays 0 and the dead-letter store stays empty. When the table has
  the column sync_status, the first two passes raise the retry count to 1 and 2,
  the third moves the mutation to the dead-letter store (with the retry count 2 it
  had in the queue) and removes the queue entry, and in every later pass the
  mutation is neither queued nor dead-lettered again.
\<close>

theorem failing_dispatch_passes:
  "(\<forall>n. run_passes defaultService (test_env True failing_remote) n one_entry_db = one_entry_db)
   \<and> map r_retry_count (sync_queue one_entry_db) = [0]
   \<and> sync_dead_letter_queue one_entry_db = []
   \<and> map r_retry_count
         (sync_queue (run_passes defaultService (test_env True failing_remote) 1
                        one_entry_db_with_column)) = [1]
   \<and> map r_retry_count
         (sync_queue (run_passes defaultService (test_env True failing_remote) 2
                        one_entry_db_with_column)) = [2]
   \<and> sync_queue (run_passes defaultService (test_env True failing_remote) 3
                     one_entry_db_with_column) = []
   \<and> map (\<lambda>row. (d_original_sync_queue_id row, d_retry_count row))
         (sync_dead_letter_queue (run_passes defaultService (test_env True failing_remote) 3
                                    one_entry_db_with_column))
       = [(''sync_2000_k3x9q2m1z'', 2)]
   \<and> (\<forall>n. retry_counts ''sync_2000_k3x9q2m1z''
              (run_passes defaultService (test_env True failing_remote) (3 + n)
                 one_entry_db_with_column) = []
            \<and> map d_retry_count
                 (dead_letters_of ''sync_2000_k3x9q2m1z''
                    (run_passes defaultService (test_env True failing_remote) (3 + n)
                       one_entry_db_with_column)) = [2])"
proof -
  have n: "number_string 2000 = ''2000''" by code_simp
  have "\<not> queue_has_sync_status one_entry_db"
    by (simp add: one_entry_db_def addToSyncQueue_def createTables_def Let_def)
  then have a: "\<forall>n. run_passes defaultService (test_env True failing_remote) n one_entry_db
      = one_entry_db"
    by (simp add: run_passes_without_column)
  have b: "map r_retry_count (sync_queue one_entry_db) = [0]"
    "sync_dead_letter_queue one_entry_db = []"
    by (simp_all add: one_entry_db_def addToSyncQueue_def createTables_def Let_def)
  have c: "map r_retry_count
         (sync_queue (run_passes defaultService (test_env True failing_remote) 1
                        one_entry_db_with_column)) = [1]"
    by (simp add: run_passes_def eval_defs failure_defs batch_step_pair n)
  have d: "map r_retry_count
         (sync_queue (run_passes defaultService (test_env True failing_remote) 2
                        one_entry_db_with_column)) = [2]"
    by (simp add: run_passes_def numeral_2_eq_2 eval_defs failure_defs batch_step_pair n)
  have e: "sync_queue (run_passes defaultService (test_env True failing_remote) 3
                     one_entry_db_with_column) = []"
    "map (\<lambda>row. (d_original_sync_queue_id row, d_retry_count row))
         (sync_dead_letter_queue (run_passes defaultService (test_env True failing_remote) 3
                                    one_entry_db_with_column))
       = [(''sync_2000_k3x9q2m1z'', 2)]"
    by (simp_all add: run_passes_def numeral_3_eq_3 eval_defs failure_defs batch_step_pair n)
  have f: "\<forall>n. retry_counts ''sync_2000_k3x9q2m1z''
              (run_passes defaultService (test_env True failing_remote) (3 + n)
                 one_entry_db_with_column) = []
            \<and> map d_retry_count
                 (dead_letters_of ''sync_2000_k3x9q2m1z''
                    (run_passes defaultService (test_env True failing_remote) (3 + n)
                       one_entry_db_with_column)) = [2]"
  proof
    fix n :: nat
    have col: "queue_has_sync_status one_entry_db_with_column"
      and cons: "consistent one_entry_db_with_column"
      and rc: "retry_counts ''sync_2000_k3x9q2m1z'' one_entry_db_with_column = [0]"
      and dl: "dead_letters_of ''sync_2000_k3x9q2m1z'' one_entry_db_with_column = []"
      by (simp_all add: one_entry_db_with_column_def addToSyncQueue_def createTables_def
          test_env_def Let_def n consistent_def queue_view_def fresh_for_def retry_counts_def
          dead_letters_of_def)
    have up: "health (test_env True failing_remote)" by (simp add: test_env_def)
    have rej: "\<forall>k request checksum.
        post (test_env True failing_remote) k request checksum = Rejected ''Network Error''"
      by (simp add: test_env_def failing_remote_def)
    have "0 < maxRetries defaultService \<and> maxRetries defaultService \<le> int (3 + n)"
      by (simp add: defaultService_def)
    then show "retry_counts ''sync_2000_k3x9q2m1z''
              (run_passes defaultService (test_env True failing_remote) (3 + n)
                 one_entry_db_with_column) = []
            \<and> map d_retry_count
                 (dead_letters_of ''sync_2000_k3x9q2m1z''
                    (run_passes defaultService (test_env True failing_remote) (3 + n)
                       one_entry_db_with_column)) = [2]"
      using failing_mutation_passes [OF col cons up rej rc dl, of defaultService "3 + n"]
      by (simp add: defaultService_def)
  qed
  show ?thesis using a b c d e f by blast
qed

end
